theory Spec2Isabelle
  imports Complex_Main
begin

section \<open>Data model (types.ts)\<close>

text \<open>
  The enums \<open>Team\<close> and \<open>SpeakerRole\<close> are string enums in the source; \<open>team_str\<close> gives
  the string each team stands for at run time, because the ranking reply of the remote model
  carries the team as a plain string that is compared with \<open>===\<close> against a speaker's team.
\<close>

datatype Team = Team_OG | Team_OO | Team_CG | Team_CO

fun team_str :: "Team \<Rightarrow> string" where
  "team_str Team_OG = ''Opening Government''"
| "team_str Team_OO = ''Opening Opposition''"
| "team_str Team_CG = ''Closing Government''"
| "team_str Team_CO = ''Closing Opposition''"

datatype SpeakerRole = Role_PM | Role_LO | Role_DPM | Role_DLO | Role_MG | Role_MO | Role_GW | Role_OW

datatype Phase = Setup | Prep | Debate | Results

text \<open>Captured audio is opaque to this code; its bytes are never inspected.\<close>

type_synonym blob = string

text \<open>
  \<open>interface Speaker\<close>. The optional fields (\<open>audioBlob?\<close>, \<open>transcription?\<close>, \<open>score?\<close>,
  \<open>feedback?\<close>) are options, \<open>None\<close> being \<open>undefined\<close>. Numbers that count seconds are
  integers, so that a decrement below zero would be visible; a score is a real number
  (the source's floating-point rounding is not modelled).
\<close>

record Speaker =
  id_sp :: string
  role :: SpeakerRole
  team :: Team
  name :: string
  isCompleted :: bool
  audioBlob :: "blob option"
  transcription :: "string option"
  score :: "real option"
  feedback :: "string option"
  speechTimeLeft :: int
  isSpeechTimerRunning :: bool

text \<open>
  \<open>Partial<Speaker>\<close>: every field may be absent (\<open>None\<close>). An update that carries a key
  with the value \<open>undefined\<close> is not modelled; no caller in the source builds one.
\<close>

record SpeakerUpdates =
  id_u :: "string option"
  role_u :: "SpeakerRole option"
  team_u :: "Team option"
  name_u :: "string option"
  isCompleted_u :: "bool option"
  audioBlob_u :: "blob option"
  transcription_u :: "string option"
  score_u :: "real option"
  feedback_u :: "string option"
  speechTimeLeft_u :: "int option"
  isSpeechTimerRunning_u :: "bool option"

text \<open>
  \<open>interface TeamResult\<close>. The team is written \<open>r.team as Team\<close> in the source, a cast the
  compiler erases: at run time it is whatever string the ranking reply holds.
\<close>

record TeamResult =
  team_tr :: string
  rank_tr :: int
  totalScore :: real
  reasoning_tr :: string

record MotionContext =
  detectedLanguage :: string
  specificCriteria :: "string list"
  backgroundInfo :: string

record DebateSession =
  id_s :: string
  title :: string
  createdAt :: int
  topic :: string
  motionContext :: "MotionContext option"
  isPrepTime :: bool
  prepTimeLeft :: int
  speakers :: "Speaker list"
  isAdjudicating :: bool
  finalRankings :: "TeamResult list option"
  overallAdjudication :: "string option"
  phase :: Phase

record AnalysisResult =
  transcription_a :: string
  score_a :: real
  feedback_a :: string

text \<open>One entry of \<open>RankingResult.rankings\<close>.\<close>

record Ranking =
  team_r :: string
  rank_r :: int
  reasoning_r :: string

text \<open>
  \<open>interface RankingResult\<close>. The value is \<open>JSON.parse(...) as RankingResult\<close>, so either
  property may be missing from the object that is really there: \<open>None\<close>.
\<close>

record RankingResult =
  rankings :: "Ranking list option"
  overallAdjudication_r :: "string option"

section \<open>Constants (constants.ts)\<close>

definition SPEECH_TIME_SECONDS :: int where
  "SPEECH_TIME_SECONDS = 7 * 60 + 20"

definition PREP_TIME_SECONDS :: int where
  "PREP_TIME_SECONDS = 15 * 60"

definition initialSpeaker :: "string \<Rightarrow> SpeakerRole \<Rightarrow> Team \<Rightarrow> Speaker" where
  "initialSpeaker i r t =
     \<lparr> id_sp = i, role = r, team = t, name = '''', isCompleted = False,
       audioBlob = None, transcription = None, score = None, feedback = None,
       speechTimeLeft = SPEECH_TIME_SECONDS, isSpeechTimerRunning = False \<rparr>"

definition INITIAL_SPEAKERS :: "Speaker list" where
  "INITIAL_SPEAKERS =
     [ initialSpeaker ''1'' Role_PM Team_OG,
       initialSpeaker ''2'' Role_LO Team_OO,
       initialSpeaker ''3'' Role_DPM Team_OG,
       initialSpeaker ''4'' Role_DLO Team_OO,
       initialSpeaker ''5'' Role_MG Team_CG,
       initialSpeaker ''6'' Role_MO Team_CO,
       initialSpeaker ''7'' Role_GW Team_CG,
       initialSpeaker ''8'' Role_OW Team_CO ]"

section \<open>Remote calls (services/geminiService.ts)\<close>

text \<open>
  What the three service functions do depends on two things outside the program: whether
  \<open>process.env.API_KEY\<close> is set, and what the remote request does. The request either
  rejects, or answers with text that \<open>JSON.parse\<close> rejects, or answers with an object.
  The prompt text sent out is not modelled.
\<close>

datatype error = ApiKeyMissing | RequestRejected | JsonSyntaxError | TypeError

datatype 'a remote = Rejects | Unparseable | Answers 'a

text \<open>The object parsed from the motion-analysis reply; a missing property is \<open>None\<close>.\<close>

record MotionJson =
  detectedLanguage_j :: "string option"
  specificCriteria_j :: "string list option"
  backgroundInfo_j :: "string option"

text \<open>\<open>x || d\<close> on a string that may be missing: \<open>undefined\<close> and \<open>""\<close> are both falsy.\<close>

definition str_or :: "string option \<Rightarrow> string \<Rightarrow> string" where
  "str_or x d = (case x of None \<Rightarrow> d | Some s \<Rightarrow> if s = [] then d else s)"

definition fallbackContext :: MotionContext where
  "fallbackContext =
     \<lparr> detectedLanguage = ''English (Fallback)'',
       specificCriteria = [''Analyze based on general logic due to search error.''],
       backgroundInfo = ''Could not retrieve online context.'' \<rparr>"

text \<open>
  \<open>analyzeMotionContext\<close>: throws when the key is missing; inside its \<open>try\<close>, a rejected
  request or unparseable text is caught and answered with the fallback context.
\<close>

definition analyzeMotionContext :: "bool \<Rightarrow> MotionJson remote \<Rightarrow> error + MotionContext" where
  "analyzeMotionContext apiKey reply =
     (if \<not> apiKey then Inl ApiKeyMissing
      else case reply of
        Answers result \<Rightarrow>
          Inr \<lparr> detectedLanguage = str_or (detectedLanguage_j result) ''Unknown'',
                specificCriteria = (case specificCriteria_j result of None \<Rightarrow> [] | Some cs \<Rightarrow> cs),
                backgroundInfo = str_or (backgroundInfo_j result) ''No context found.'' \<rparr>
      | Rejects \<Rightarrow> Inr fallbackContext
      | Unparseable \<Rightarrow> Inr fallbackContext)"

text \<open>The object parsed from the speech-evaluation reply.\<close>

record AnalysisJson =
  transcription_j :: "string option"
  score_j :: "real option"
  feedback_j :: "string option"

text \<open>
  \<open>analyzeSpeakerAudio\<close>: here the \<open>catch\<close> rethrows. \<open>score_j = None\<close> stands for a
  score that is missing or not of type number.
\<close>

definition analyzeSpeakerAudio :: "bool \<Rightarrow> AnalysisJson remote \<Rightarrow> error + AnalysisResult" where
  "analyzeSpeakerAudio apiKey reply =
     (if \<not> apiKey then Inl ApiKeyMissing
      else case reply of
        Answers result \<Rightarrow>
          Inr \<lparr> transcription_a = str_or (transcription_j result) ''Transcription failed.'',
                score_a = (case score_j result of None \<Rightarrow> 0 | Some x \<Rightarrow> x),
                feedback_a = str_or (feedback_j result) ''No feedback generated.'' \<rparr>
      | Rejects \<Rightarrow> Inl RequestRejected
      | Unparseable \<Rightarrow> Inl JsonSyntaxError)"

text \<open>
  \<open>generateFinalRanking\<close>: the parsed object is returned as it is, cast to
  \<open>RankingResult\<close>; nothing in it is checked. The \<open>catch\<close> rethrows.
\<close>

definition generateFinalRanking :: "bool \<Rightarrow> RankingResult remote \<Rightarrow> error + RankingResult" where
  "generateFinalRanking apiKey reply =
     (if \<not> apiKey then Inl ApiKeyMissing
      else case reply of
        Answers result \<Rightarrow> Inr result
      | Rejects \<Rightarrow> Inl RequestRejected
      | Unparseable \<Rightarrow> Inl JsonSyntaxError)"

section \<open>The speaker card (components/SpeakerRecorder.tsx)\<close>

definition noUpdates :: SpeakerUpdates where
  "noUpdates =
     \<lparr> id_u = None, role_u = None, team_u = None, name_u = None, isCompleted_u = None,
       audioBlob_u = None, transcription_u = None, score_u = None, feedback_u = None,
       speechTimeLeft_u = None, isSpeechTimerRunning_u = None \<rparr>"

text \<open>
  Each function below returns the call \<open>onUpdateSpeaker(speaker.id, updates)\<close> that the
  component makes, as the pair of its arguments, or \<open>None\<close> when it makes no call.

  The speech-timer effect arms an interval only while the flag is set and time is left;
  when the interval fires it writes \<open>speechTimeLeft - 1\<close> and nothing else.
\<close>

definition speechTimerEffect :: "Speaker \<Rightarrow> (string \<times> SpeakerUpdates) option" where
  "speechTimerEffect speaker =
     (if isSpeechTimerRunning speaker \<and> speechTimeLeft speaker > 0
      then Some (id_sp speaker, noUpdates\<lparr> speechTimeLeft_u := Some (speechTimeLeft speaker - 1) \<rparr>)
      else None)"

definition toggleSpeechTimer :: "Speaker \<Rightarrow> string \<times> SpeakerUpdates" where
  "toggleSpeechTimer speaker =
     (id_sp speaker, noUpdates\<lparr> isSpeechTimerRunning_u := Some (\<not> isSpeechTimerRunning speaker) \<rparr>)"

definition resetSpeechTimer :: "Speaker \<Rightarrow> string \<times> SpeakerUpdates" where
  "resetSpeechTimer speaker =
     (id_sp speaker, noUpdates\<lparr> isSpeechTimerRunning_u := Some False,
                                speechTimeLeft_u := Some SPEECH_TIME_SECONDS \<rparr>)"

text \<open>\<open>processAudio\<close>, given what \<open>analyzeSpeakerAudio\<close> returned or threw.\<close>

definition processAudio ::
  "Speaker \<Rightarrow> blob \<Rightarrow> error + AnalysisResult \<Rightarrow> (string \<times> SpeakerUpdates) option" where
  "processAudio speaker blob res =
     (case res of
        Inr result \<Rightarrow>
          Some (id_sp speaker,
                noUpdates\<lparr> isCompleted_u := Some True,
                           transcription_u := Some (transcription_a result),
                           score_u := Some (score_a result),
                           feedback_u := Some (feedback_a result),
                           audioBlob_u := Some blob \<rparr>)
      | Inl e \<Rightarrow> None)"

section \<open>The dashboard (components/DebateDashboard.tsx)\<close>

text \<open>The object spread \<open>{ ...s, ...updates }\<close>: a key present in the update wins.\<close>

definition or_else :: "'a option \<Rightarrow> 'a \<Rightarrow> 'a" where
  "or_else x d = (case x of None \<Rightarrow> d | Some v \<Rightarrow> v)"

definition or_keep :: "'a option \<Rightarrow> 'a option \<Rightarrow> 'a option" where
  "or_keep x d = (case x of None \<Rightarrow> d | Some v \<Rightarrow> Some v)"

definition spread :: "Speaker \<Rightarrow> SpeakerUpdates \<Rightarrow> Speaker" where
  "spread s updates =
     \<lparr> id_sp = or_else (id_u updates) (id_sp s),
       role = or_else (role_u updates) (role s),
       team = or_else (team_u updates) (team s),
       name = or_else (name_u updates) (name s),
       isCompleted = or_else (isCompleted_u updates) (isCompleted s),
       audioBlob = or_keep (audioBlob_u updates) (audioBlob s),
       transcription = or_keep (transcription_u updates) (transcription s),
       score = or_keep (score_u updates) (score s),
       feedback = or_keep (feedback_u updates) (feedback s),
       speechTimeLeft = or_else (speechTimeLeft_u updates) (speechTimeLeft s),
       isSpeechTimerRunning = or_else (isSpeechTimerRunning_u updates) (isSpeechTimerRunning s) \<rparr>"

text \<open>
  Every handler returns the list of sessions it passes to \<open>onUpdate\<close>, in call order;
  the empty list is a handler that returns without a call. \<open>session\<close> is the value the
  handler closed over, so every call spreads the same \<open>session\<close>.
\<close>

definition handleUpdateSpeaker :: "DebateSession \<Rightarrow> string \<Rightarrow> SpeakerUpdates \<Rightarrow> DebateSession" where
  "handleUpdateSpeaker session i updates =
     (let newSpeakers = map (\<lambda>s. if id_sp s = i then spread s updates else s) (speakers session)
      in session\<lparr> speakers := newSpeakers \<rparr>)"

text \<open>The prep-timer effect: the session its interval passes to \<open>onUpdate\<close>, if armed.\<close>

definition prepTimerEffect :: "DebateSession \<Rightarrow> DebateSession option" where
  "prepTimerEffect session =
     (if phase session = Prep \<and> prepTimeLeft session > 0
      then Some (session\<lparr> prepTimeLeft := prepTimeLeft session - 1 \<rparr>)
      else None)"

text \<open>
  \<open>!motionInput.trim()\<close>: true exactly when the string has only white space. The
  characters are those of \<open>String.prototype.trim\<close> that fit a byte.
\<close>

definition is_space :: "char \<Rightarrow> bool" where
  "is_space c = (of_char c \<in> {9, 10, 11, 12, 13, 32, 160 :: nat})"

definition trim_empty :: "string \<Rightarrow> bool" where
  "trim_empty s = list_all is_space s"

definition handleAnalyzeAndStart ::
  "DebateSession \<Rightarrow> string \<Rightarrow> bool \<Rightarrow> bool \<Rightarrow> error + MotionContext \<Rightarrow> DebateSession list" where
  "handleAnalyzeAndStart session motionInput isOnline skipPrepTime res =
     (if trim_empty motionInput then []
      else if \<not> isOnline then []
      else case res of
        Inr context \<Rightarrow>
          (let nextPhase = (if skipPrepTime then Debate else Prep)
           in [ session\<lparr> topic := motionInput,
                        title := (if length motionInput > 30
                                  then take 30 motionInput @ ''...'' else motionInput),
                        motionContext := Some context,
                        phase := nextPhase,
                        prepTimeLeft := (if skipPrepTime then 0 else PREP_TIME_SECONDS) \<rparr> ])
      | Inl e \<Rightarrow> [])"

definition handleSkipPrep :: "DebateSession \<Rightarrow> DebateSession list" where
  "handleSkipPrep session = [ session\<lparr> phase := Debate, prepTimeLeft := 0 \<rparr> ]"

text \<open>\<open>s.score || 0\<close>.\<close>

definition score_or_0 :: "Speaker \<Rightarrow> real" where
  "score_or_0 s = (case score s of None \<Rightarrow> 0 | Some x \<Rightarrow> x)"

text \<open>
  The two blocks of \<open>handleFinishDebate\<close> that build the team results: the
  \<open>result.rankings.map\<close> that copies each entry with \<open>totalScore: 0\<close>, and the
  \<open>forEach\<close> that overwrites each \<open>totalScore\<close>.
\<close>

definition toTeamResults :: "Ranking list \<Rightarrow> TeamResult list" where
  "toTeamResults rs =
     map (\<lambda>r. \<lparr> team_tr = team_r r, rank_tr = rank_r r, totalScore = 0,
                reasoning_tr = reasoning_r r \<rparr>) rs"

definition calculateTotalScores :: "Speaker list \<Rightarrow> TeamResult list \<Rightarrow> TeamResult list" where
  "calculateTotalScores sps finalRankings' =
     map (\<lambda>teamRank.
            let teamSpeakers = filter (\<lambda>s. team_str (team s) = team_tr teamRank) sps
            in teamRank\<lparr> totalScore := foldl (\<lambda>acc s. acc + score_or_0 s) 0 teamSpeakers \<rparr>)
         finalRankings'"

text \<open>
  \<open>handleFinishDebate\<close>. \<open>confirmed\<close> is the answer to the \<open>confirm\<close> dialog, asked only
  when fewer than 8 speakers are completed. \<open>res\<close> is what \<open>generateFinalRanking\<close>
  returned or threw. \<open>result.rankings.map\<close> on a reply without \<open>rankings\<close> throws a
  TypeError inside the \<open>try\<close>, and so takes the \<open>catch\<close> branch as well.
\<close>

definition handleFinishDebate ::
  "DebateSession \<Rightarrow> bool \<Rightarrow> error + RankingResult \<Rightarrow> DebateSession list" where
  "handleFinishDebate session confirmed res =
     (let completedCount = length (filter isCompleted (speakers session))
      in if completedCount < 8 \<and> \<not> confirmed then []
         else
           session\<lparr> isAdjudicating := True, phase := Results \<rparr> #
           (case (case res of Inl e \<Rightarrow> Inl e
                  | Inr result \<Rightarrow>
                      (case rankings result of None \<Rightarrow> Inl TypeError
                       | Some rs \<Rightarrow> Inr (rs, overallAdjudication_r result))) of
              Inr (rs, adjudication) \<Rightarrow>
                [ session\<lparr> phase := Results,
                           isAdjudicating := False,
                           finalRankings :=
                             Some (calculateTotalScores (speakers session) (toTeamResults rs)),
                           overallAdjudication := adjudication \<rparr> ]
            | Inl e \<Rightarrow>
                [ session\<lparr> isAdjudicating := False, phase := Debate \<rparr> ]))"

text \<open>The session after a handler: the last one passed to \<open>onUpdate\<close>, if any.\<close>

definition after :: "DebateSession \<Rightarrow> DebateSession list \<Rightarrow> DebateSession" where
  "after session updates = (if updates = [] then session else last updates)"

section \<open>The session list (App.tsx)\<close>

record AppState =
  sessions :: "DebateSession list"
  activeSessionId :: string

text \<open>Decimal digits of a number, for the template strings that print one.\<close>

fun show_nat :: "nat \<Rightarrow> string" where
  "show_nat n =
     (if n < 10 then [char_of (48 + n)]
      else show_nat (n div 10) @ [char_of (48 + n mod 10)])"

declare show_nat.simps [simp del]

text \<open>
  The object literal that both the initial \<open>useState\<close> value and \<open>createNewSession\<close>
  write out; its speakers are a deep copy of \<open>INITIAL_SPEAKERS\<close>. \<open>now\<close> is \<open>Date.now()\<close>.
\<close>

definition blankSession :: "string \<Rightarrow> string \<Rightarrow> nat \<Rightarrow> DebateSession" where
  "blankSession newId newTitle now =
     \<lparr> id_s = newId, title = newTitle, createdAt = int now, topic = [],
       motionContext = None, isPrepTime = True, prepTimeLeft = PREP_TIME_SECONDS,
       speakers = INITIAL_SPEAKERS, isAdjudicating = False, finalRankings = None,
       overallAdjudication = None, phase = Setup \<rparr>"

definition initialApp :: "nat \<Rightarrow> AppState" where
  "initialApp now =
     \<lparr> sessions = [blankSession ''default-1'' ''New Debate 1'' now],
       activeSessionId = ''default-1'' \<rparr>"

definition createNewSession :: "AppState \<Rightarrow> nat \<Rightarrow> AppState" where
  "createNewSession st now =
     (let newId = ''session-'' @ show_nat now;
          newSession = blankSession newId
                         (''New Debate '' @ show_nat (length (sessions st) + 1)) now
      in \<lparr> sessions = sessions st @ [newSession], activeSessionId = newId \<rparr>)"

definition updateSession :: "AppState \<Rightarrow> DebateSession \<Rightarrow> AppState" where
  "updateSession st updated =
     st\<lparr> sessions := map (\<lambda>s. if id_s s = id_s updated then updated else s) (sessions st) \<rparr>"

text \<open>
  \<open>deleteSession\<close> returns the state it leaves behind and the error it throws, if any.
  \<open>setSessions(newSessions)\<close> is called before \<open>newSessions[0].id\<close> is read, and that
  read throws a TypeError on an empty array: the empty list is stored all the same, and the
  active id is left as it was.
\<close>

definition deleteSession :: "AppState \<Rightarrow> string \<Rightarrow> AppState \<times> error option" where
  "deleteSession st i =
     (if length (sessions st) = 1 then (st, None)
      else
        let newSessions = filter (\<lambda>s. id_s s \<noteq> i) (sessions st)
        in if activeSessionId st = i
           then (case newSessions of
                   [] \<Rightarrow> (st\<lparr> sessions := newSessions \<rparr>, Some TypeError)
                 | s # rest \<Rightarrow>
                     (\<lparr> sessions = newSessions, activeSessionId = id_s s \<rparr>, None))
           else (\<lparr> sessions = newSessions, activeSessionId = activeSessionId st \<rparr>, None))"

section \<open>One session as a transition system\<close>

text \<open>
  What can happen to a session, one event at a time. Each event is one handler or one
  interval firing, run to its end before the next (the overlap of calls in flight is not
  modelled). Which events exist in which phase is read off the four views of
  \<open>DebateDashboard\<close>: the start button is rendered in \<open>setup\<close>, the skip button in
  \<open>prep\<close>, the eight speaker cards and the finish button in \<open>debate\<close>, and no handler of
  the session in \<open>results\<close>. A speaker card is named by its position in
  \<open>session.speakers\<close>; its record button is rendered while the speaker is not completed.

  \<open>RecordingStops k\<close> is a recording on card \<open>k\<close> that is started, stopped and evaluated
  with no other event of the session in between. When other events do come in between, the
  result is written by the closure of the render in which the record button was clicked
  (\<open>mediaRecorder.onstop\<close> is bound there): what it stores is
  \<open>step c (RecordingStops k ...)\<close> for that earlier session \<open>c\<close>, which replaces the
  current session whole. The runs below contain no such late result.
\<close>

datatype action =
    AnalyzeAndStart string bool bool bool "MotionJson remote"
  | PrepTimerFires
  | SkipPrep
  | SpeechTimerFires nat
  | ToggleSpeechTimer nat
  | ResetSpeechTimer nat
  | RecordingStops nat blob bool "AnalysisJson remote"
  | FinishDebate bool bool "RankingResult remote"

text \<open>What the card at position \<open>k\<close> does to the session through \<open>onUpdateSpeaker\<close>.\<close>

definition onCard ::
  "DebateSession \<Rightarrow> nat \<Rightarrow> (Speaker \<Rightarrow> (string \<times> SpeakerUpdates) option) \<Rightarrow> DebateSession option" where
  "onCard session k call =
     (if phase session = Debate \<and> k < length (speakers session)
      then (case call (speakers session ! k) of
              None \<Rightarrow> Some session
            | Some (i, updates) \<Rightarrow> Some (handleUpdateSpeaker session i updates))
      else None)"

fun step :: "DebateSession \<Rightarrow> action \<Rightarrow> DebateSession option" where
  "step session (AnalyzeAndStart motionInput isOnline skipPrepTime apiKey reply) =
     (if phase session = Setup
      then Some (after session
                   (handleAnalyzeAndStart session motionInput isOnline skipPrepTime
                      (analyzeMotionContext apiKey reply)))
      else None)"
| "step session PrepTimerFires = prepTimerEffect session"
| "step session SkipPrep =
     (if phase session = Prep then Some (after session (handleSkipPrep session)) else None)"
| "step session (SpeechTimerFires k) =
     (if k < length (speakers session) \<and> speechTimerEffect (speakers session ! k) = None
      then None else onCard session k speechTimerEffect)"
| "step session (ToggleSpeechTimer k) = onCard session k (\<lambda>sp. Some (toggleSpeechTimer sp))"
| "step session (ResetSpeechTimer k) = onCard session k (\<lambda>sp. Some (resetSpeechTimer sp))"
| "step session (RecordingStops k blob apiKey reply) =
     (if k < length (speakers session) \<and> isCompleted (speakers session ! k)
      then None
      else onCard session k (\<lambda>sp. processAudio sp blob (analyzeSpeakerAudio apiKey reply)))"
| "step session (FinishDebate confirmed apiKey reply) =
     (if phase session = Debate
      then Some (after session
                   (handleFinishDebate session confirmed (generateFinalRanking apiKey reply)))
      else None)"

fun run :: "DebateSession \<Rightarrow> action list \<Rightarrow> DebateSession option" where
  "run session [] = Some session"
| "run session (a # as) = (case step session a of None \<Rightarrow> None | Some s \<Rightarrow> run s as)"

text \<open>What holds of every session the events can produce from a blank one.\<close>

definition speaker_ok :: "Speaker \<Rightarrow> bool" where
  "speaker_ok sp =
     (0 \<le> speechTimeLeft sp \<and> speechTimeLeft sp \<le> SPEECH_TIME_SECONDS \<and>
      (isCompleted sp \<longleftrightarrow> score sp \<noteq> None))"

definition session_ok :: "DebateSession \<Rightarrow> bool" where
  "session_ok s =
     (map id_sp (speakers s) = map id_sp INITIAL_SPEAKERS \<and>
      map role (speakers s) = map role INITIAL_SPEAKERS \<and>
      map team (speakers s) = map team INITIAL_SPEAKERS \<and>
      list_all speaker_ok (speakers s) \<and>
      0 \<le> prepTimeLeft s \<and> prepTimeLeft s \<le> PREP_TIME_SECONDS \<and>
      (phase s \<noteq> Results \<longrightarrow>
         \<not> isAdjudicating s \<and> finalRankings s = None \<and> overallAdjudication s = None) \<and>
      (phase s = Setup \<longrightarrow> motionContext s = None))"

text \<open>
  The calls of \<open>onUpdateSpeaker\<close> that a speaker card makes, as the pair of their
  arguments: from the speech-timer interval, the toggle button, the reset button, and
  \<open>processAudio\<close>. \<open>sp\<close> is the speaker the calling closure holds.
\<close>

datatype card_event = Tick | Toggle | Reset | Processed blob "error + AnalysisResult"

fun cardCall :: "Speaker \<Rightarrow> card_event \<Rightarrow> (string \<times> SpeakerUpdates) option" where
  "cardCall sp Tick = speechTimerEffect sp"
| "cardCall sp Toggle = Some (toggleSpeechTimer sp)"
| "cardCall sp Reset = Some (resetSpeechTimer sp)"
| "cardCall sp (Processed blob res) = processAudio sp blob res"

text \<open>
  The events that are neither a reset of the speech timer of card \<open>k\<close> nor the write-back
  of an evaluation result.
\<close>

fun leaves_timer :: "nat \<Rightarrow> action \<Rightarrow> bool" where
  "leaves_timer k (ResetSpeechTimer j) = (j \<noteq> k)"
| "leaves_timer k (RecordingStops j blob apiKey reply) = False"
| "leaves_timer k a = True"

section \<open>The aggregation as the specification words it\<close>

text \<open>
  A speaker who has not completed a speech contributes 0; a team's total is the sum of
  the contributions of the speakers of that team.
\<close>

definition specContribution :: "Speaker \<Rightarrow> real" where
  "specContribution sp = (if isCompleted sp then (case score sp of Some x \<Rightarrow> x | None \<Rightarrow> 0) else 0)"

definition specTotalScore :: "Speaker list \<Rightarrow> Team \<Rightarrow> real" where
  "specTotalScore sps t = sum_list (map specContribution (filter (\<lambda>sp. team sp = t) sps))"

section \<open>Sample data\<close>

text \<open>
  A session as the app first shows it, a motion submitted with preparation skipped (the
  remote request fails, so the fallback context is attached), and eight evaluated
  speeches scoring 18, 15, 17, 14, 16, 13, 19, 12 in roster order.
\<close>

definition replay :: "DebateSession \<Rightarrow> action list \<Rightarrow> DebateSession" where
  "replay s as = (case run s as of None \<Rightarrow> s | Some s' \<Rightarrow> s')"

definition sampleBlank :: DebateSession where
  "sampleBlank = blankSession ''default-1'' ''New Debate 1'' 0"

definition sampleStart :: "bool \<Rightarrow> action" where
  "sampleStart skipPrepTime =
     AnalyzeAndStart ''This house would ban cars'' True skipPrepTime True Rejects"

definition sampleSpeech :: "nat \<Rightarrow> real \<Rightarrow> action" where
  "sampleSpeech k x =
     RecordingStops k ''audio'' True
       (Answers \<lparr> transcription_j = Some ''speech'', score_j = Some x,
                  feedback_j = Some ''feedback'' \<rparr>)"

definition samplePrep :: DebateSession where
  "samplePrep = replay sampleBlank [sampleStart False]"

definition sampleDebate :: DebateSession where
  "sampleDebate = replay sampleBlank [sampleStart True]"

definition sampleScored :: DebateSession where
  "sampleScored =
     replay sampleDebate
       [ sampleSpeech 0 18, sampleSpeech 1 15, sampleSpeech 2 17, sampleSpeech 3 14,
         sampleSpeech 4 16, sampleSpeech 5 13, sampleSpeech 6 19, sampleSpeech 7 12 ]"

text \<open>Only the fifth speaker (Member of Government, Closing Government) has spoken.\<close>

definition sampleAbsent :: DebateSession where
  "sampleAbsent = replay sampleDebate [sampleSpeech 4 16]"

definition sampleRankings :: "Ranking list" where
  "sampleRankings =
     [ \<lparr> team_r = ''Opening Government'', rank_r = 1, reasoning_r = ''best case'' \<rparr>,
       \<lparr> team_r = ''Closing Government'', rank_r = 2, reasoning_r = ''good extension'' \<rparr>,
       \<lparr> team_r = ''Opening Opposition'', rank_r = 3, reasoning_r = ''weak rebuttal'' \<rparr>,
       \<lparr> team_r = ''Closing Opposition'', rank_r = 4, reasoning_r = ''no new material'' \<rparr> ]"

text \<open>A rank list that names one team twice, with the same rank, and no other team.\<close>

definition sampleBadRankings :: "Ranking list" where
  "sampleBadRankings =
     [ \<lparr> team_r = ''Opening Government'', rank_r = 1, reasoning_r = ''first'' \<rparr>,
       \<lparr> team_r = ''Opening Government'', rank_r = 1, reasoning_r = ''first again'' \<rparr> ]"

definition sampleReply :: "Ranking list \<Rightarrow> RankingResult remote" where
  "sampleReply rs = Answers \<lparr> rankings = Some rs, overallAdjudication_r = Some ''decision'' \<rparr>"

text \<open>The first speaker's timer started; the same timer after it has run out.\<close>

definition sampleRunning :: DebateSession where
  "sampleRunning = replay sampleDebate [ToggleSpeechTimer 0]"

definition sampleExpired :: DebateSession where
  "sampleExpired =
     sampleRunning\<lparr> speakers :=
       (speakers sampleRunning)[0 := (speakers sampleRunning ! 0)\<lparr> speechTimeLeft := 0 \<rparr>] \<rparr>"

text \<open>The first speaker's timer started, one second later.\<close>

definition sampleTicked :: DebateSession where
  "sampleTicked = replay sampleDebate [ToggleSpeechTimer 0, SpeechTimerFires 0]"

text \<open>The app after one click on the new-debate button, at time 5.\<close>

definition sampleApp :: AppState where
  "sampleApp = createNewSession (initialApp 0) 5"

text \<open>
  Two sessions created within the same millisecond, so that both have the id
  \<open>session-5\<close>, after the first session of the app has been deleted.
\<close>

definition sampleTwins :: AppState where
  "sampleTwins =
     \<lparr> sessions = [blankSession ''session-5'' ''New Debate 2'' 5,
                     blankSession ''session-5'' ''New Debate 3'' 5],
       activeSessionId = ''session-5'' \<rparr>"

section \<open>What the events preserve\<close>


lemma spread_fields:
  "id_sp (spread s u) = or_else (id_u u) (id_sp s)"
  "role (spread s u) = or_else (role_u u) (role s)"
  "team (spread s u) = or_else (team_u u) (team s)"
  "isCompleted (spread s u) = or_else (isCompleted_u u) (isCompleted s)"
  "score (spread s u) = or_keep (score_u u) (score s)"
  "speechTimeLeft (spread s u) = or_else (speechTimeLeft_u u) (speechTimeLeft s)"
  "isSpeechTimerRunning (spread s u) = or_else (isSpeechTimerRunning_u u) (isSpeechTimerRunning s)"
  by (simp_all add: spread_def)

lemma speakers_handleUpdateSpeaker:
  "speakers (handleUpdateSpeaker session i u) =
     map (\<lambda>s. if id_sp s = i then spread s u else s) (speakers session)"
  by (simp add: handleUpdateSpeaker_def)

lemma other_fields_handleUpdateSpeaker:
  "phase (handleUpdateSpeaker session i u) = phase session"
  "prepTimeLeft (handleUpdateSpeaker session i u) = prepTimeLeft session"
  "isAdjudicating (handleUpdateSpeaker session i u) = isAdjudicating session"
  "finalRankings (handleUpdateSpeaker session i u) = finalRankings session"
  "overallAdjudication (handleUpdateSpeaker session i u) = overallAdjudication session"
  "motionContext (handleUpdateSpeaker session i u) = motionContext session"
  by (simp_all add: handleUpdateSpeaker_def)

lemma cardCall_identity:
  assumes "cardCall sp ev = Some (i, u)"
  shows "i = id_sp sp \<and> id_u u = None \<and> role_u u = None \<and> team_u u = None"
  using assms
  by (cases ev)
     (auto simp: speechTimerEffect_def toggleSpeechTimer_def resetSpeechTimer_def
                 processAudio_def noUpdates_def split: if_splits sum.splits)

lemma cardCall_speaker_ok:
  assumes "cardCall sp ev = Some (i, u)" and "speaker_ok sp" and "speaker_ok sp'"
  shows "speaker_ok (spread sp' u)"
  using assms
  by (cases ev)
     (auto simp: speechTimerEffect_def toggleSpeechTimer_def resetSpeechTimer_def
                 processAudio_def noUpdates_def speaker_ok_def spread_fields
                 or_else_def or_keep_def SPEECH_TIME_SECONDS_def
           split: if_splits sum.splits)

lemma identity_handleUpdateSpeaker:
  assumes "id_u u = None" "role_u u = None" "team_u u = None"
  shows "map id_sp (speakers (handleUpdateSpeaker s i u)) = map id_sp (speakers s)"
    and "map role (speakers (handleUpdateSpeaker s i u)) = map role (speakers s)"
    and "map team (speakers (handleUpdateSpeaker s i u)) = map team (speakers s)"
  using assms by (simp_all add: speakers_handleUpdateSpeaker spread_fields or_else_def)

lemma list_all_handleUpdateSpeaker:
  assumes "list_all P (speakers s)" and "\<And>sp'. P sp' \<Longrightarrow> P (spread sp' u)"
  shows "list_all P (speakers (handleUpdateSpeaker s i u))"
  using assms by (auto simp: speakers_handleUpdateSpeaker list_all_iff)

lemma session_ok_handleUpdateSpeaker:
  assumes ok: "session_ok s"
    and idn: "id_u u = None" "role_u u = None" "team_u u = None"
    and sp: "\<And>sp'. speaker_ok sp' \<Longrightarrow> speaker_ok (spread sp' u)"
  shows "session_ok (handleUpdateSpeaker s i u)"
proof -
  have "list_all speaker_ok (speakers s)" using ok by (simp add: session_ok_def)
  then have "list_all speaker_ok (speakers (handleUpdateSpeaker s i u))"
    using sp by (rule list_all_handleUpdateSpeaker)
  then show ?thesis
    using ok
    by (simp add: session_ok_def identity_handleUpdateSpeaker[OF idn]
                  other_fields_handleUpdateSpeaker)
qed

lemma session_ok_onCard:
  assumes ok: "session_ok s" and st: "onCard s k (\<lambda>sp. cardCall sp ev) = Some s'"
  shows "session_ok s'"
proof (cases "cardCall (speakers s ! k) ev")
  case None
  then show ?thesis using st ok by (auto simp: onCard_def split: if_splits)
next
  case (Some p)
  obtain i u where p: "p = (i, u)" by (cases p)
  from st Some p have k: "k < length (speakers s)" and s': "s' = handleUpdateSpeaker s i u"
    by (auto simp: onCard_def split: if_splits)
  have "speaker_ok (speakers s ! k)"
    using ok k by (simp add: session_ok_def list_all_length)
  then have "\<And>sp'. speaker_ok sp' \<Longrightarrow> speaker_ok (spread sp' u)"
    using cardCall_speaker_ok Some p by blast
  moreover have "id_u u = None \<and> role_u u = None \<and> team_u u = None"
    using cardCall_identity Some p by blast
  ultimately show ?thesis using ok s' session_ok_handleUpdateSpeaker by blast
qed


lemma session_ok_blankSession: "session_ok (blankSession i t now)"
  by (simp add: session_ok_def blankSession_def INITIAL_SPEAKERS_def initialSpeaker_def
                speaker_ok_def SPEECH_TIME_SECONDS_def PREP_TIME_SECONDS_def)

lemma session_ok_handleAnalyzeAndStart:
  assumes "session_ok s" and "phase s = Setup"
  shows "session_ok (after s (handleAnalyzeAndStart s m onl skip res))"
  using assms
  by (cases res)
     (auto simp: session_ok_def after_def handleAnalyzeAndStart_def PREP_TIME_SECONDS_def)

lemma session_ok_prepTimerEffect:
  assumes "session_ok s" and "prepTimerEffect s = Some s'"
  shows "session_ok s'"
  using assms by (auto simp: session_ok_def prepTimerEffect_def split: if_splits)

lemma session_ok_handleSkipPrep:
  assumes "session_ok s" and "phase s = Prep"
  shows "session_ok (after s (handleSkipPrep s))"
  using assms by (auto simp: session_ok_def after_def handleSkipPrep_def PREP_TIME_SECONDS_def)

lemma session_ok_handleFinishDebate:
  assumes "session_ok s" and "phase s = Debate"
  shows "session_ok (after s (handleFinishDebate s confirmed res))"
  using assms
  by (auto simp: session_ok_def after_def handleFinishDebate_def Let_def
           split: sum.splits option.splits)

lemma session_ok_step:
  assumes ok: "session_ok s" and st: "step s a = Some s'"
  shows "session_ok s'"
proof (cases a)
  case (AnalyzeAndStart m onl skip key reply)
  then show ?thesis
    using ok st session_ok_handleAnalyzeAndStart by (auto split: if_splits)
next
  case PrepTimerFires
  then show ?thesis using ok st session_ok_prepTimerEffect by auto
next
  case SkipPrep
  then show ?thesis using ok st session_ok_handleSkipPrep by (auto split: if_splits)
next
  case (SpeechTimerFires k)
  then have "onCard s k (\<lambda>sp. cardCall sp Tick) = Some s'"
    using st by (simp split: if_splits)
  then show ?thesis using ok by (rule session_ok_onCard[rotated])
next
  case (ToggleSpeechTimer k)
  then have "onCard s k (\<lambda>sp. cardCall sp Toggle) = Some s'"
    using st by simp
  then show ?thesis using ok by (rule session_ok_onCard[rotated])
next
  case (ResetSpeechTimer k)
  then have "onCard s k (\<lambda>sp. cardCall sp Reset) = Some s'"
    using st by simp
  then show ?thesis using ok by (rule session_ok_onCard[rotated])
next
  case (RecordingStops k blob key reply)
  then have "onCard s k (\<lambda>sp. cardCall sp (Processed blob (analyzeSpeakerAudio key reply))) = Some s'"
    using st by (simp split: if_splits)
  then show ?thesis using ok by (rule session_ok_onCard[rotated])
next
  case (FinishDebate confirmed key reply)
  then show ?thesis
    using ok st session_ok_handleFinishDebate by (auto split: if_splits)
qed

lemma session_ok_run:
  assumes "session_ok s" and "run s as = Some s'"
  shows "session_ok s'"
  using assms
proof (induction as arbitrary: s)
  case Nil
  then show ?case by simp
next
  case (Cons a as)
  then show ?case
    by (auto split: option.splits dest: session_ok_step)
qed

section \<open>The sample sessions\<close>

lemmas sample_defs = sampleBlank_def sampleStart_def sampleSpeech_def replay_def
  blankSession_def INITIAL_SPEAKERS_def initialSpeaker_def analyzeMotionContext_def
  analyzeSpeakerAudio_def generateFinalRanking_def handleAnalyzeAndStart_def after_def
  onCard_def processAudio_def handleUpdateSpeaker_def spread_def noUpdates_def or_else_def
  or_keep_def str_or_def trim_empty_def is_space_def fallbackContext_def

lemma run_samplePrep: "run sampleBlank [sampleStart False] = Some samplePrep"
  by (simp add: samplePrep_def sample_defs)

lemma run_sampleDebate: "run sampleBlank [sampleStart True] = Some sampleDebate"
  by (simp add: sampleDebate_def sample_defs)

lemma session_ok_sampleBlank: "session_ok sampleBlank"
  by (simp add: sampleBlank_def session_ok_blankSession)

lemma session_ok_samplePrep: "session_ok samplePrep"
  using session_ok_run[OF session_ok_sampleBlank run_samplePrep] .

lemma session_ok_sampleDebate: "session_ok sampleDebate"
  using session_ok_run[OF session_ok_sampleBlank run_sampleDebate] .

lemma phase_samplePrep: "phase samplePrep = Prep"
  by (simp add: samplePrep_def sample_defs)

lemma phase_sampleDebate: "phase sampleDebate = Debate"
  by (simp add: sampleDebate_def sample_defs)

section \<open>Leaving setup, and a finish that fails\<close>

lemma analyzeMotionContext_fails_iff:
  "(\<exists>e. analyzeMotionContext apiKey reply = Inl e) \<longleftrightarrow> \<not> apiKey"
  by (cases reply) (simp_all add: analyzeMotionContext_def)

lemma analyzeMotionContext_fallback:
  "analyzeMotionContext True Rejects = Inr fallbackContext"
  "analyzeMotionContext True Unparseable = Inr fallbackContext"
  by (simp_all add: analyzeMotionContext_def)

lemma motionContext_samplePrep: "motionContext samplePrep = Some fallbackContext"
  by (simp add: samplePrep_def sample_defs)

text \<open>
  Claim C1, as stated, fails: a remote request that is rejected does not make the call of
  \<open>analyzeMotionContext\<close> fail. The call catches the rejection and returns its fallback
  context, and the start handler takes the blank sample session from \<open>setup\<close> to \<open>prep\<close>
  with that context attached.
\<close>

theorem remote_failure_leaves_setup_counterexample:
  "phase sampleBlank = Setup \<and> motionContext sampleBlank = None \<and>
   analyzeMotionContext True Rejects = Inr fallbackContext \<and>
   step sampleBlank (AnalyzeAndStart ''This house would ban cars'' True False True Rejects)
     = Some samplePrep \<and>
   phase samplePrep = Prep \<and> motionContext samplePrep = Some fallbackContext"
proof -
  have "phase sampleBlank = Setup" "motionContext sampleBlank = None"
    by (simp_all add: sampleBlank_def blankSession_def)
  moreover have "step sampleBlank
      (AnalyzeAndStart ''This house would ban cars'' True False True Rejects) = Some samplePrep"
    by (simp add: samplePrep_def sample_defs)
  ultimately show ?thesis
    using analyzeMotionContext_fallback(1) phase_samplePrep motionContext_samplePrep
    by (intro conjI)
qed

text \<open>
  Claim C1, amended. For every session in phase \<open>setup\<close> with \<open>motionContext\<close> null: the
  phase leaves \<open>setup\<close> only after \<open>analyzeMotionContext\<close> returned a context, which is
  the one attached; when that call throws, the handler makes no \<open>onUpdate\<close> call, so the
  session is unchanged, its phase still \<open>setup\<close> and its \<open>motionContext\<close> still null. The
  call throws exactly when the API key is missing. A remote request that is rejected, or a
  reply that does not parse, is not such a failure: with a key present, a motion that is not
  blank and the caller online, the session leaves \<open>setup\<close> for \<open>prep\<close> (or \<open>debate\<close>
  when preparation is skipped) with the fallback context attached.
\<close>

theorem setup_kept_only_when_analysis_throws:
  assumes "phase session = Setup" and "motionContext session = None"
  shows "(res = Inl e \<longrightarrow>
            handleAnalyzeAndStart session motionInput isOnline skipPrepTime res = [] \<and>
            after session (handleAnalyzeAndStart session motionInput isOnline skipPrepTime res)
              = session \<and>
            phase (after session
                     (handleAnalyzeAndStart session motionInput isOnline skipPrepTime res)) = Setup \<and>
            motionContext (after session
                     (handleAnalyzeAndStart session motionInput isOnline skipPrepTime res)) = None) \<and>
         (analyzeMotionContext apiKey reply = Inl e \<longrightarrow>
            step session (AnalyzeAndStart motionInput isOnline skipPrepTime apiKey reply)
              = Some session) \<and>
         (phase (after session
                   (handleAnalyzeAndStart session motionInput isOnline skipPrepTime res)) \<noteq> Setup \<longrightarrow>
            (\<exists>context. res = Inr context \<and>
               motionContext (after session
                   (handleAnalyzeAndStart session motionInput isOnline skipPrepTime res))
                 = Some context)) \<and>
         ((\<exists>e'. analyzeMotionContext apiKey reply = Inl e') \<longleftrightarrow> \<not> apiKey) \<and>
         (apiKey \<and> (reply = Rejects \<or> reply = Unparseable) \<and>
          \<not> trim_empty motionInput \<and> isOnline \<longrightarrow>
            (\<exists>s'. step session (AnalyzeAndStart motionInput isOnline skipPrepTime apiKey reply)
                     = Some s' \<and>
                   phase s' = (if skipPrepTime then Debate else Prep) \<and>
                   prepTimeLeft s' = (if skipPrepTime then 0 else PREP_TIME_SECONDS) \<and>
                   motionContext s' = Some fallbackContext))"
proof -
  have a: "res = Inl e \<longrightarrow>
            handleAnalyzeAndStart session motionInput isOnline skipPrepTime res = [] \<and>
            after session (handleAnalyzeAndStart session motionInput isOnline skipPrepTime res)
              = session \<and>
            phase (after session
                     (handleAnalyzeAndStart session motionInput isOnline skipPrepTime res)) = Setup \<and>
            motionContext (after session
                     (handleAnalyzeAndStart session motionInput isOnline skipPrepTime res)) = None"
    using assms by (auto simp: handleAnalyzeAndStart_def after_def)
  have b: "analyzeMotionContext apiKey reply = Inl e \<longrightarrow>
            step session (AnalyzeAndStart motionInput isOnline skipPrepTime apiKey reply)
              = Some session"
    using assms by (auto simp: handleAnalyzeAndStart_def after_def)
  have c: "phase (after session
                   (handleAnalyzeAndStart session motionInput isOnline skipPrepTime res)) \<noteq> Setup \<longrightarrow>
            (\<exists>context. res = Inr context \<and>
               motionContext (after session
                   (handleAnalyzeAndStart session motionInput isOnline skipPrepTime res))
                 = Some context)"
    using assms by (cases res) (auto simp: handleAnalyzeAndStart_def after_def)
  have d: "(\<exists>e'. analyzeMotionContext apiKey reply = Inl e') \<longleftrightarrow> \<not> apiKey"
    by (rule analyzeMotionContext_fails_iff)
  have f: "apiKey \<and> (reply = Rejects \<or> reply = Unparseable) \<and>
          \<not> trim_empty motionInput \<and> isOnline \<longrightarrow>
            (\<exists>s'. step session (AnalyzeAndStart motionInput isOnline skipPrepTime apiKey reply)
                     = Some s' \<and>
                   phase s' = (if skipPrepTime then Debate else Prep) \<and>
                   prepTimeLeft s' = (if skipPrepTime then 0 else PREP_TIME_SECONDS) \<and>
                   motionContext s' = Some fallbackContext)"
    using assms analyzeMotionContext_fallback
    by (auto simp: handleAnalyzeAndStart_def after_def)
  show ?thesis using a b c d f by (intro conjI)
qed

theorem setup_kept_only_when_analysis_throws_witness:
  "phase sampleBlank = Setup \<and>
   motionContext sampleBlank = None \<and>
   analyzeMotionContext False Rejects = Inl ApiKeyMissing \<and>
   step sampleBlank
        (AnalyzeAndStart ''This house would ban cars'' True False False Rejects)
     = Some sampleBlank \<and>
   (\<exists>s'. step sampleBlank
            (AnalyzeAndStart ''This house would ban cars'' True False True Rejects) = Some s' \<and>
          phase s' = Prep \<and> motionContext s' = Some fallbackContext)"
proof -
  have p: "phase sampleBlank = Setup"
    by (simp add: sampleBlank_def blankSession_def)
  have m: "motionContext sampleBlank = None"
    by (simp add: sampleBlank_def blankSession_def)
  have f: "analyzeMotionContext False Rejects = Inl ApiKeyMissing"
    by (simp add: analyzeMotionContext_def)
  have kept: "step sampleBlank
          (AnalyzeAndStart ''This house would ban cars'' True False False Rejects)
        = Some sampleBlank"
    using setup_kept_only_when_analysis_throws[OF p m, of "Inl ApiKeyMissing" ApiKeyMissing
        "''This house would ban cars''" True False False Rejects] f
    by blast
  have g: "True \<and> ((Rejects :: MotionJson remote) = Rejects \<or> (Rejects :: MotionJson remote) = Unparseable) \<and>
           \<not> trim_empty ''This house would ban cars'' \<and> True"
    by (simp add: trim_empty_def is_space_def)
  have left: "\<exists>s'. step sampleBlank
            (AnalyzeAndStart ''This house would ban cars'' True False True Rejects) = Some s' \<and>
          phase s' = Prep \<and> motionContext s' = Some fallbackContext"
    using setup_kept_only_when_analysis_throws[OF p m, of "Inl ApiKeyMissing" ApiKeyMissing
        "''This house would ban cars''" True False True Rejects] g
    by auto
  show ?thesis using p m f kept left by (intro conjI)
qed

lemma session_unchanged:
  "phase s = Debate \<Longrightarrow> \<not> isAdjudicating s \<Longrightarrow> s\<lparr>isAdjudicating := False, phase := Debate\<rparr> = s"
  by (cases s) simp

text \<open>
  Claim C3. For every session in phase \<open>debate\<close> that the events can produce: if the
  ranking call of the finish action fails (it throws, or its reply has no \<open>rankings\<close>, on
  which \<open>result.rankings.map\<close> throws), the session ends in phase \<open>debate\<close> with
  \<open>isAdjudicating\<close> false and \<open>finalRankings\<close> and \<open>overallAdjudication\<close> null; it is
  the session the handler started from, so no ranking data persists.
\<close>

theorem ranking_failure_rolls_back:
  assumes "phase session = Debate" and "session_ok session"
    and "res = Inl e \<or> (\<exists>result. res = Inr result \<and> rankings result = None)"
  shows "phase (after session (handleFinishDebate session confirmed res)) = Debate \<and>
         isAdjudicating (after session (handleFinishDebate session confirmed res)) = False \<and>
         finalRankings (after session (handleFinishDebate session confirmed res)) = None \<and>
         overallAdjudication (after session (handleFinishDebate session confirmed res)) = None \<and>
         after session (handleFinishDebate session confirmed res) = session \<and>
         (generateFinalRanking apiKey reply = res \<longrightarrow>
            step session (FinishDebate confirmed apiKey reply) = Some session)"
proof -
  have flags: "\<not> isAdjudicating session" "finalRankings session = None"
    "overallAdjudication session = None"
    using assms(1,2) by (simp_all add: session_ok_def)
  have "after session (handleFinishDebate session confirmed res) = session"
    using assms(3) session_unchanged[OF assms(1) flags(1)]
    by (auto simp: handleFinishDebate_def after_def Let_def)
  then show ?thesis using assms(1) flags by simp
qed


theorem ranking_failure_rolls_back_witness:
  "phase sampleDebate = Debate \<and> session_ok sampleDebate \<and>
   generateFinalRanking True Rejects = Inl RequestRejected \<and>
   step sampleDebate (FinishDebate True True Rejects) = Some sampleDebate \<and>
   finalRankings (after sampleDebate (handleFinishDebate sampleDebate True (Inl RequestRejected)))
     = None"
proof -
  have f: "generateFinalRanking True Rejects = Inl RequestRejected"
    by (simp add: generateFinalRanking_def)
  have "Inl RequestRejected = (Inl RequestRejected :: error + RankingResult) \<or>
        (\<exists>result. Inl RequestRejected = Inr result \<and> rankings result = None)"
    by simp
  from ranking_failure_rolls_back[OF phase_sampleDebate session_ok_sampleDebate this,
         where confirmed = True and apiKey = True and reply = Rejects] f
  show ?thesis using phase_sampleDebate session_ok_sampleDebate by blast
qed

section \<open>The aggregation\<close>

lemma foldl_score_sum:
  "foldl (\<lambda>acc s. acc + score_or_0 s) a sps = a + sum_list (map score_or_0 sps)"
  by (induction sps arbitrary: a) (simp_all add: add.assoc)

lemma team_str_inj: "team_str a = team_str b \<longleftrightarrow> a = b"
  by (cases a; cases b) simp_all

lemma score_or_0_spec: "speaker_ok sp \<Longrightarrow> score_or_0 sp = specContribution sp"
  by (auto simp: speaker_ok_def score_or_0_def specContribution_def split: option.splits)

lemma sum_score_or_0_spec:
  "list_all speaker_ok sps \<Longrightarrow>
     sum_list (map score_or_0 (filter P sps)) = sum_list (map specContribution (filter P sps))"
  by (induction sps) (simp_all add: score_or_0_spec)

lemma calculateTotalScores_toTeamResults:
  "calculateTotalScores sps (toTeamResults rs) =
     map (\<lambda>r. \<lparr> team_tr = team_r r, rank_tr = rank_r r,
                totalScore = sum_list (map score_or_0
                                (filter (\<lambda>s. team_str (team s) = team_r r) sps)),
                reasoning_tr = reasoning_r r \<rparr>) rs"
  by (simp add: calculateTotalScores_def toTeamResults_def foldl_score_sum)

lemma handleFinishDebate_success:
  assumes "confirmed \<or> \<not> length (filter isCompleted (speakers session)) < 8"
    and "rankings result = Some rs"
  shows "after session (handleFinishDebate session confirmed (Inr result)) =
           session\<lparr> phase := Results, isAdjudicating := False,
                    finalRankings :=
                      Some (calculateTotalScores (speakers session) (toTeamResults rs)),
                    overallAdjudication := overallAdjudication_r result \<rparr>"
  using assms by (auto simp: handleFinishDebate_def after_def Let_def)

lemma roster_slots:
  assumes "map team sps = map team INITIAL_SPEAKERS"
  shows "filter (\<lambda>sp. team sp = Team_OG) sps = [sps ! 0, sps ! 2]"
    and "filter (\<lambda>sp. team sp = Team_OO) sps = [sps ! 1, sps ! 3]"
    and "filter (\<lambda>sp. team sp = Team_CG) sps = [sps ! 4, sps ! 6]"
    and "filter (\<lambda>sp. team sp = Team_CO) sps = [sps ! 5, sps ! 7]"
  using assms
  by (auto simp: INITIAL_SPEAKERS_def initialSpeaker_def map_eq_Cons_conv)

lemma two_speakers_per_team:
  assumes "map team sps = map team INITIAL_SPEAKERS"
  shows "length (filter (\<lambda>sp. team sp = t) sps) = 2"
  using roster_slots[OF assms] by (cases t) simp_all


lemma run_sampleScored:
  "run sampleDebate
     [ sampleSpeech 0 18, sampleSpeech 1 15, sampleSpeech 2 17, sampleSpeech 3 14,
       sampleSpeech 4 16, sampleSpeech 5 13, sampleSpeech 6 19, sampleSpeech 7 12 ]
   = Some sampleScored"
  by (simp add: sampleScored_def sampleDebate_def sample_defs)

lemma run_sampleAbsent: "run sampleDebate [sampleSpeech 4 16] = Some sampleAbsent"
  by (simp add: sampleAbsent_def sampleDebate_def sample_defs)

lemma session_ok_sampleScored: "session_ok sampleScored"
  using session_ok_run[OF session_ok_sampleDebate run_sampleScored] .

lemma session_ok_sampleAbsent: "session_ok sampleAbsent"
  using session_ok_run[OF session_ok_sampleDebate run_sampleAbsent] .

lemmas finish_defs = handleFinishDebate_def calculateTotalScores_def toTeamResults_def
  score_or_0_def sampleReply_def sampleRankings_def sampleBadRankings_def Let_def

lemma finish_sampleScored:
  "finalRankings (after sampleScored
      (handleFinishDebate sampleScored False (generateFinalRanking True (sampleReply sampleRankings))))
   = Some [ \<lparr> team_tr = ''Opening Government'', rank_tr = 1, totalScore = 35,
                reasoning_tr = ''best case'' \<rparr>,
            \<lparr> team_tr = ''Closing Government'', rank_tr = 2, totalScore = 35,
                reasoning_tr = ''good extension'' \<rparr>,
            \<lparr> team_tr = ''Opening Opposition'', rank_tr = 3, totalScore = 29,
                reasoning_tr = ''weak rebuttal'' \<rparr>,
            \<lparr> team_tr = ''Closing Opposition'', rank_tr = 4, totalScore = 25,
                reasoning_tr = ''no new material'' \<rparr> ]"
  by (simp add: sampleScored_def sampleDebate_def sample_defs finish_defs)

lemma finish_sampleAbsent:
  "finalRankings (after sampleAbsent
      (handleFinishDebate sampleAbsent True (generateFinalRanking True (sampleReply sampleRankings))))
   = Some [ \<lparr> team_tr = ''Opening Government'', rank_tr = 1, totalScore = 0,
                reasoning_tr = ''best case'' \<rparr>,
            \<lparr> team_tr = ''Closing Government'', rank_tr = 2, totalScore = 16,
                reasoning_tr = ''good extension'' \<rparr>,
            \<lparr> team_tr = ''Opening Opposition'', rank_tr = 3, totalScore = 0,
                reasoning_tr = ''weak rebuttal'' \<rparr>,
            \<lparr> team_tr = ''Closing Opposition'', rank_tr = 4, totalScore = 0,
                reasoning_tr = ''no new material'' \<rparr> ]"
  by (simp add: sampleAbsent_def sampleDebate_def sample_defs finish_defs)

text \<open>
  Claim C6. For every session the events can produce and every rank list the ranking reply
  holds, each stored \<open>totalScore\<close> of an entry naming a team is the sum of the scores of
  that team's speakers, a speaker who has not completed contributing 0; every team has
  exactly two speakers, at fixed roster positions; team, rank and reasoning are copied
  from the reply. The witness runs the two examples: scores 18, 15, 17, 14, 16, 13, 19, 12
  in roster order give 35, 29, 35, 25 for OG, OO, CG, CO, and a team with one speaker
  scoring 16 and one who has not spoken gets 16.
\<close>

theorem total_score_sums_team_speakers:
  assumes ok: "session_ok session"
    and go: "confirmed \<or> \<not> length (filter isCompleted (speakers session)) < 8"
    and rs: "rankings result = Some rs"
  shows "(\<exists>frs. finalRankings (after session (handleFinishDebate session confirmed (Inr result)))
                  = Some frs \<and>
               length frs = length rs \<and>
               map team_tr frs = map team_r rs \<and>
               map rank_tr frs = map rank_r rs \<and>
               map reasoning_tr frs = map reasoning_r rs \<and>
               (\<forall>k t. k < length rs \<and> team_r (rs ! k) = team_str t \<longrightarrow>
                      totalScore (frs ! k) = specTotalScore (speakers session) t)) \<and>
         phase (after session (handleFinishDebate session confirmed (Inr result))) = Results \<and>
         (\<forall>t. length (filter (\<lambda>sp. team sp = t) (speakers session)) = 2) \<and>
         specTotalScore (speakers session) Team_OG
           = specContribution (speakers session ! 0) + specContribution (speakers session ! 2) \<and>
         specTotalScore (speakers session) Team_OO
           = specContribution (speakers session ! 1) + specContribution (speakers session ! 3) \<and>
         specTotalScore (speakers session) Team_CG
           = specContribution (speakers session ! 4) + specContribution (speakers session ! 6) \<and>
         specTotalScore (speakers session) Team_CO
           = specContribution (speakers session ! 5) + specContribution (speakers session ! 7) \<and>
         (\<forall>sp \<in> set (speakers session). \<not> isCompleted sp \<longrightarrow> specContribution sp = 0)"
proof -
  let ?sps = "speakers session"
  let ?frs = "calculateTotalScores ?sps (toTeamResults rs)"
  have teams: "map team ?sps = map team INITIAL_SPEAKERS"
    and all_ok: "list_all speaker_ok ?sps"
    using ok by (simp_all add: session_ok_def)
  have fin: "finalRankings (after session (handleFinishDebate session confirmed (Inr result)))
               = Some ?frs"
    and ph: "phase (after session (handleFinishDebate session confirmed (Inr result))) = Results"
    by (simp_all add: handleFinishDebate_success[OF go rs])
  have copy: "length ?frs = length rs" "map team_tr ?frs = map team_r rs"
    "map rank_tr ?frs = map rank_r rs" "map reasoning_tr ?frs = map reasoning_r rs"
    by (simp_all add: calculateTotalScores_toTeamResults comp_def)
  have tot: "totalScore (?frs ! k) = specTotalScore ?sps t"
    if "k < length rs" and "team_r (rs ! k) = team_str t" for k t
    using that sum_score_or_0_spec[OF all_ok]
    by (simp add: calculateTotalScores_toTeamResults team_str_inj specTotalScore_def)
  have two: "length (filter (\<lambda>sp. team sp = t) ?sps) = 2" for t
    by (rule two_speakers_per_team[OF teams])
  have slots: "specTotalScore ?sps Team_OG = specContribution (?sps ! 0) + specContribution (?sps ! 2)"
    "specTotalScore ?sps Team_OO = specContribution (?sps ! 1) + specContribution (?sps ! 3)"
    "specTotalScore ?sps Team_CG = specContribution (?sps ! 4) + specContribution (?sps ! 6)"
    "specTotalScore ?sps Team_CO = specContribution (?sps ! 5) + specContribution (?sps ! 7)"
    by (simp_all add: specTotalScore_def roster_slots[OF teams])
  have absent: "\<forall>sp \<in> set ?sps. \<not> isCompleted sp \<longrightarrow> specContribution sp = 0"
    by (simp add: specContribution_def)
  show ?thesis
    using fin ph copy tot two slots absent by blast
qed

theorem total_score_sums_team_speakers_witness:
  "session_ok sampleScored \<and>
   rankings \<lparr> rankings = Some sampleRankings, overallAdjudication_r = Some ''decision'' \<rparr>
     = Some sampleRankings \<and>
   (\<forall>t. length (filter (\<lambda>sp. team sp = t) (speakers sampleScored)) = 2) \<and>
   finalRankings (after sampleScored
      (handleFinishDebate sampleScored False (generateFinalRanking True (sampleReply sampleRankings))))
   = Some [ \<lparr> team_tr = ''Opening Government'', rank_tr = 1, totalScore = 35,
                reasoning_tr = ''best case'' \<rparr>,
            \<lparr> team_tr = ''Closing Government'', rank_tr = 2, totalScore = 35,
                reasoning_tr = ''good extension'' \<rparr>,
            \<lparr> team_tr = ''Opening Opposition'', rank_tr = 3, totalScore = 29,
                reasoning_tr = ''weak rebuttal'' \<rparr>,
            \<lparr> team_tr = ''Closing Opposition'', rank_tr = 4, totalScore = 25,
                reasoning_tr = ''no new material'' \<rparr> ] \<and>
   map_option (map totalScore) (finalRankings (after sampleAbsent
      (handleFinishDebate sampleAbsent True (generateFinalRanking True (sampleReply sampleRankings)))))
   = Some [0, 16, 0, 0]"
proof -
  have go: "False \<or> \<not> length (filter isCompleted (speakers sampleScored)) < 8"
    by (simp add: sampleScored_def sampleDebate_def sample_defs)
  have rs: "rankings \<lparr> rankings = Some sampleRankings, overallAdjudication_r = Some ''decision'' \<rparr>
              = Some sampleRankings"
    by simp
  have "\<forall>t. length (filter (\<lambda>sp. team sp = t) (speakers sampleScored)) = 2"
    using total_score_sums_team_speakers[OF session_ok_sampleScored go rs] by blast
  then show ?thesis
    using session_ok_sampleScored rs finish_sampleScored finish_sampleAbsent by simp
qed


text \<open>
  Claim C2, as stated, fails: \<open>handleFinishDebate\<close> checks nothing about the rank list.
  A reply that names Opening Government twice with rank 1, and no other team, is stored
  as two team results and the session enters \<open>results\<close>.
\<close>

theorem unchecked_rank_list_counterexample:
  "phase sampleScored = Debate \<and>
   phase (after sampleScored
      (handleFinishDebate sampleScored False
         (generateFinalRanking True (sampleReply sampleBadRankings)))) = Results \<and>
   finalRankings (after sampleScored
      (handleFinishDebate sampleScored False
         (generateFinalRanking True (sampleReply sampleBadRankings))))
   = Some [ \<lparr> team_tr = ''Opening Government'', rank_tr = 1, totalScore = 35,
                reasoning_tr = ''first'' \<rparr>,
            \<lparr> team_tr = ''Opening Government'', rank_tr = 1, totalScore = 35,
                reasoning_tr = ''first again'' \<rparr> ]"
  by (simp add: sampleScored_def sampleDebate_def sample_defs finish_defs)

text \<open>
  Claim C2, amended. The finish action does not check the rank list. In phase \<open>debate\<close>
  it ends without any team result, the session unchanged, only when the ranking call throws
  or its reply has no \<open>rankings\<close>; for every reply that has a \<open>rankings\<close> list, whatever
  teams and ranks it names, it stores one team result per entry, in order, with team, rank
  and reasoning copied, and the session enters \<open>results\<close>.
\<close>

theorem rank_list_stored_unchecked:
  assumes ph: "phase session = Debate" and ok: "session_ok session"
    and go: "confirmed \<or> \<not> length (filter isCompleted (speakers session)) < 8"
  shows "(\<forall>result rs. res = Inr result \<and> rankings result = Some rs \<longrightarrow>
            phase (after session (handleFinishDebate session confirmed res)) = Results \<and>
            (\<exists>frs. finalRankings (after session (handleFinishDebate session confirmed res))
                     = Some frs \<and>
                   length frs = length rs \<and>
                   map team_tr frs = map team_r rs \<and>
                   map rank_tr frs = map rank_r rs \<and>
                   map reasoning_tr frs = map reasoning_r rs)) \<and>
         ((\<exists>e. res = Inl e) \<or> (\<exists>result. res = Inr result \<and> rankings result = None) \<longrightarrow>
            after session (handleFinishDebate session confirmed res) = session \<and>
            finalRankings (after session (handleFinishDebate session confirmed res)) = None)"
proof -
  have flags: "\<not> isAdjudicating session" "finalRankings session = None"
    using ph ok by (simp_all add: session_ok_def)
  have good: "phase (after session (handleFinishDebate session confirmed res)) = Results \<and>
              (\<exists>frs. finalRankings (after session (handleFinishDebate session confirmed res))
                       = Some frs \<and>
                     length frs = length rs \<and>
                     map team_tr frs = map team_r rs \<and>
                     map rank_tr frs = map rank_r rs \<and>
                     map reasoning_tr frs = map reasoning_r rs)"
    if "res = Inr result" and "rankings result = Some rs" for result rs
    using that
    by (simp add: handleFinishDebate_success[OF go] calculateTotalScores_toTeamResults comp_def)
  have bad: "after session (handleFinishDebate session confirmed res) = session"
    if "(\<exists>e. res = Inl e) \<or> (\<exists>result. res = Inr result \<and> rankings result = None)"
    using that session_unchanged[OF ph flags(1)]
    by (auto simp: handleFinishDebate_def after_def Let_def)
  show ?thesis using good bad flags(2) by auto
qed

theorem rank_list_stored_unchecked_witness:
  "phase sampleScored = Debate \<and> session_ok sampleScored \<and>
   generateFinalRanking True (sampleReply sampleBadRankings)
     = Inr \<lparr> rankings = Some sampleBadRankings, overallAdjudication_r = Some ''decision'' \<rparr> \<and>
   (\<exists>frs. finalRankings (after sampleScored
              (handleFinishDebate sampleScored False
                 (generateFinalRanking True (sampleReply sampleBadRankings)))) = Some frs \<and>
          map team_tr frs = map team_r sampleBadRankings \<and>
          map rank_tr frs = map rank_r sampleBadRankings)"
proof -
  have ph: "phase sampleScored = Debate"
    by (simp add: sampleScored_def sampleDebate_def sample_defs)
  have go: "False \<or> \<not> length (filter isCompleted (speakers sampleScored)) < 8"
    by (simp add: sampleScored_def sampleDebate_def sample_defs)
  have r: "generateFinalRanking True (sampleReply sampleBadRankings)
             = Inr \<lparr> rankings = Some sampleBadRankings, overallAdjudication_r = Some ''decision'' \<rparr>"
    by (simp add: generateFinalRanking_def sampleReply_def)
  have "rankings \<lparr> rankings = Some sampleBadRankings, overallAdjudication_r = Some ''decision'' \<rparr>
          = Some sampleBadRankings"
    by simp
  with rank_list_stored_unchecked[OF ph session_ok_sampleScored go,
         where res = "generateFinalRanking True (sampleReply sampleBadRankings)"] r
  show ?thesis using ph session_ok_sampleScored by blast
qed

section \<open>Timers\<close>

lemma spread_speechTimeLeft:
  "spread sp (noUpdates\<lparr> speechTimeLeft_u := Some x \<rparr>) = sp\<lparr> speechTimeLeft := x \<rparr>"
  by (cases sp) (simp add: spread_def noUpdates_def or_else_def or_keep_def)

lemma spread_isSpeechTimerRunning:
  "spread sp (noUpdates\<lparr> isSpeechTimerRunning_u := Some b \<rparr>) = sp\<lparr> isSpeechTimerRunning := b \<rparr>"
  by (cases sp) (simp add: spread_def noUpdates_def or_else_def or_keep_def)

lemma distinct_ids:
  assumes "session_ok s"
  shows "distinct (map id_sp (speakers s))" and "length (speakers s) = 8"
proof -
  have e: "map id_sp (speakers s) = map id_sp INITIAL_SPEAKERS"
    using assms by (simp add: session_ok_def)
  show "distinct (map id_sp (speakers s))"
    unfolding e by (simp add: INITIAL_SPEAKERS_def initialSpeaker_def)
  have "length (map id_sp (speakers s)) = 8"
    unfolding e by (simp add: INITIAL_SPEAKERS_def)
  then show "length (speakers s) = 8" by simp
qed

lemma map_at_distinct:
  assumes d: "distinct (map g xs)" and k: "k < length xs"
  shows "map (\<lambda>x. if g x = g (xs ! k) then f x else x) xs = xs[k := f (xs ! k)]"
proof (rule nth_equalityI)
  show "length (map (\<lambda>x. if g x = g (xs ! k) then f x else x) xs) = length (xs[k := f (xs ! k)])"
    by simp
next
  fix j
  assume "j < length (map (\<lambda>x. if g x = g (xs ! k) then f x else x) xs)"
  then have j: "j < length xs" by simp
  have "(map g xs ! j = map g xs ! k) = (j = k)"
    using d j k by (simp add: nth_eq_iff_index_eq del: nth_map)
  then have "(g (xs ! j) = g (xs ! k)) = (j = k)" using j k by simp
  then show "map (\<lambda>x. if g x = g (xs ! k) then f x else x) xs ! j = xs[k := f (xs ! k)] ! j"
    using j by (auto simp: nth_list_update)
qed

lemma handleUpdateSpeaker_at:
  assumes "session_ok s" and "k < length (speakers s)"
  shows "handleUpdateSpeaker s (id_sp (speakers s ! k)) u =
           s\<lparr> speakers := (speakers s)[k := spread (speakers s ! k) u] \<rparr>"
  using map_at_distinct[OF distinct_ids(1)[OF assms(1)] assms(2), of "\<lambda>x. spread x u"]
  by (simp add: handleUpdateSpeaker_def)

lemma card_in_session:
  assumes ok: "session_ok s" and st: "onCard s k (\<lambda>sp. cardCall sp ev) = Some s'"
  shows "k < length (speakers s) \<and> phase s = Debate \<and>
         s' = (case cardCall (speakers s ! k) ev of
                 None \<Rightarrow> s
               | Some (i, u) \<Rightarrow> s\<lparr> speakers := (speakers s)[k := spread (speakers s ! k) u] \<rparr>)"
proof (cases "cardCall (speakers s ! k) ev")
  case None
  then show ?thesis using st by (auto simp: onCard_def split: if_splits)
next
  case (Some p)
  obtain i u where p: "p = (i, u)" by (cases p)
  have k: "k < length (speakers s)" and ph: "phase s = Debate"
    using st by (auto simp: onCard_def split: if_splits)
  have i: "i = id_sp (speakers s ! k)" using cardCall_identity Some p by blast
  have "s' = handleUpdateSpeaker s i u"
    using st Some p k ph by (simp add: onCard_def)
  then show ?thesis
    using Some p k ph i handleUpdateSpeaker_at[OF ok k] by simp
qed

lemma other_cards_unchanged:
  assumes ok: "session_ok s" and st: "onCard s k (\<lambda>sp. cardCall sp ev) = Some s'"
    and j: "j < length (speakers s)" "j \<noteq> k"
  shows "speakers s' ! j = speakers s ! j"
  using card_in_session[OF ok st] j
  by (cases "cardCall (speakers s ! k) ev") auto

lemma step_toggle:
  assumes ok: "session_ok s" and ph: "phase s = Debate" and k: "k < length (speakers s)"
  shows "step s (ToggleSpeechTimer k) =
           Some (s\<lparr> speakers := (speakers s)[k := (speakers s ! k)
                   \<lparr> isSpeechTimerRunning := \<not> isSpeechTimerRunning (speakers s ! k) \<rparr>] \<rparr>)"
  using ph k handleUpdateSpeaker_at[OF ok k]
  by (simp add: onCard_def toggleSpeechTimer_def spread_isSpeechTimerRunning)

lemma step_reset:
  assumes ok: "session_ok s" and ph: "phase s = Debate" and k: "k < length (speakers s)"
  shows "step s (ResetSpeechTimer k) =
           Some (s\<lparr> speakers := (speakers s)[k := (speakers s ! k)
                   \<lparr> speechTimeLeft := SPEECH_TIME_SECONDS, isSpeechTimerRunning := False \<rparr>] \<rparr>)"
proof -
  have "spread (speakers s ! k)
          (noUpdates\<lparr> isSpeechTimerRunning_u := Some False,
                      speechTimeLeft_u := Some SPEECH_TIME_SECONDS \<rparr>)
        = (speakers s ! k)\<lparr> speechTimeLeft := SPEECH_TIME_SECONDS, isSpeechTimerRunning := False \<rparr>"
    by (cases "speakers s ! k") (simp add: spread_def noUpdates_def or_else_def or_keep_def)
  then show ?thesis
    using ph k handleUpdateSpeaker_at[OF ok k]
    by (simp add: onCard_def resetSpeechTimer_def)
qed

lemma step_speech_tick:
  assumes ok: "session_ok s" and ph: "phase s = Debate" and k: "k < length (speakers s)"
    and r: "isSpeechTimerRunning (speakers s ! k)" and t: "0 < speechTimeLeft (speakers s ! k)"
  shows "step s (SpeechTimerFires k) =
           Some (s\<lparr> speakers := (speakers s)[k := (speakers s ! k)
                   \<lparr> speechTimeLeft := speechTimeLeft (speakers s ! k) - 1 \<rparr>] \<rparr>)"
  using ph k r t handleUpdateSpeaker_at[OF ok k]
  by (simp add: onCard_def speechTimerEffect_def spread_speechTimeLeft)

lemma step_speech_tick_none:
  "step s (SpeechTimerFires k) = None" if "speechTimeLeft (speakers s ! k) = 0"
  using that by (simp add: speechTimerEffect_def onCard_def)

lemma speech_tick_step:
  assumes "step s (SpeechTimerFires k) = Some s'"
  shows "phase s = Debate \<and> k < length (speakers s) \<and>
         isSpeechTimerRunning (speakers s ! k) \<and> 0 < speechTimeLeft (speakers s ! k)"
proof -
  have c: "onCard s k speechTimerEffect = Some s'"
    using assms by (simp split: if_splits)
  then have k: "k < length (speakers s)" and ph: "phase s = Debate"
    by (auto simp: onCard_def split: if_splits)
  then have "speechTimerEffect (speakers s ! k) \<noteq> None"
    using assms by (auto split: if_splits)
  then have "isSpeechTimerRunning (speakers s ! k) \<and> 0 < speechTimeLeft (speakers s ! k)"
    by (auto simp: speechTimerEffect_def split: if_splits)
  then show ?thesis using k ph by simp
qed

lemma run_speech_ticks:
  "session_ok s \<Longrightarrow> phase s = Debate \<Longrightarrow> k < length (speakers s) \<Longrightarrow>
   isSpeechTimerRunning (speakers s ! k) \<Longrightarrow> int n \<le> speechTimeLeft (speakers s ! k) \<Longrightarrow>
     run s (replicate n (SpeechTimerFires k)) =
       Some (s\<lparr> speakers := (speakers s)[k := (speakers s ! k)
               \<lparr> speechTimeLeft := speechTimeLeft (speakers s ! k) - int n \<rparr>] \<rparr>)"
proof (induction n arbitrary: s)
  case 0
  then show ?case by simp
next
  case (Suc n)
  let ?s = "s\<lparr> speakers := (speakers s)[k := (speakers s ! k)
                \<lparr> speechTimeLeft := speechTimeLeft (speakers s ! k) - 1 \<rparr>] \<rparr>"
  have st: "step s (SpeechTimerFires k) = Some ?s"
    using Suc.prems by (intro step_speech_tick) simp_all
  have ok: "session_ok ?s" using session_ok_step[OF Suc.prems(1) st] .
  have "run ?s (replicate n (SpeechTimerFires k)) =
          Some (?s\<lparr> speakers := (speakers ?s)[k := (speakers ?s ! k)
                  \<lparr> speechTimeLeft := speechTimeLeft (speakers ?s ! k) - int n \<rparr>] \<rparr>)"
    using Suc.prems ok by (intro Suc.IH) simp_all
  then show ?case using st Suc.prems(3) by (simp add: algebra_simps)
qed

lemma speakers_kept:
  "step s (AnalyzeAndStart m onl skip key reply) = Some s' \<Longrightarrow> speakers s' = speakers s"
  "step s PrepTimerFires = Some s' \<Longrightarrow> speakers s' = speakers s"
  "step s SkipPrep = Some s' \<Longrightarrow> speakers s' = speakers s"
  "step s (FinishDebate c key r) = Some s' \<Longrightarrow> speakers s' = speakers s"
  by (auto simp: handleAnalyzeAndStart_def after_def prepTimerEffect_def handleSkipPrep_def
                 handleFinishDebate_def Let_def
           split: if_splits sum.splits option.splits)

lemma stays_zero_step:
  assumes ok: "session_ok s" and k: "k < length (speakers s)"
    and z: "speechTimeLeft (speakers s ! k) = 0"
    and a: "leaves_timer k a" and st: "step s a = Some s'"
  shows "speechTimeLeft (speakers s' ! k) = 0"
proof (cases a)
  case (AnalyzeAndStart m onl skip key reply)
  then show ?thesis using st z speakers_kept(1) by simp
next
  case PrepTimerFires
  then show ?thesis using st z speakers_kept(2) by simp
next
  case SkipPrep
  then show ?thesis using st z speakers_kept(3) by simp
next
  case (SpeechTimerFires j)
  then have j: "j < length (speakers s)" "phase s = Debate"
    "isSpeechTimerRunning (speakers s ! j)" "0 < speechTimeLeft (speakers s ! j)"
    using speech_tick_step st by blast+
  then have "j \<noteq> k" using z by auto
  then show ?thesis
    using st SpeechTimerFires step_speech_tick[OF ok j(2) j(1) j(3) j(4)] z k by auto
next
  case (ToggleSpeechTimer j)
  then have c: "onCard s j (\<lambda>sp. Some (toggleSpeechTimer sp)) = Some s'" using st by simp
  then have j: "j < length (speakers s)" "phase s = Debate"
    by (auto simp: onCard_def split: if_splits)
  show ?thesis
    using st ToggleSpeechTimer step_toggle[OF ok j(2) j(1)] z k
    by (cases "j = k") auto
next
  case (ResetSpeechTimer j)
  then have c: "onCard s j (\<lambda>sp. Some (resetSpeechTimer sp)) = Some s'" using st by simp
  then have j: "j < length (speakers s)" "phase s = Debate"
    by (auto simp: onCard_def split: if_splits)
  have "j \<noteq> k" using a ResetSpeechTimer by simp
  then show ?thesis
    using st ResetSpeechTimer step_reset[OF ok j(2) j(1)] z k by auto
next
  case (RecordingStops j blob key reply)
  then show ?thesis using a by simp
next
  case (FinishDebate c key r)
  then show ?thesis using st z speakers_kept(4) by simp
qed

lemma stays_zero_run:
  "session_ok s \<Longrightarrow> k < length (speakers s) \<Longrightarrow> speechTimeLeft (speakers s ! k) = 0 \<Longrightarrow>
   list_all (leaves_timer k) as \<Longrightarrow> run s as = Some s' \<Longrightarrow>
     speechTimeLeft (speakers s' ! k) = 0"
proof (induction as arbitrary: s)
  case Nil
  then show ?case by simp
next
  case (Cons a as)
  from Cons.prems(5) obtain s1 where s1: "step s a = Some s1" and r: "run s1 as = Some s'"
    by (auto split: option.splits)
  have ok1: "session_ok s1" using session_ok_step[OF Cons.prems(1) s1] .
  have k1: "k < length (speakers s1)"
    using distinct_ids(2)[OF ok1] distinct_ids(2)[OF Cons.prems(1)] Cons.prems(2) by simp
  have z1: "speechTimeLeft (speakers s1 ! k) = 0"
    using stays_zero_step[OF Cons.prems(1,2,3) _ s1] Cons.prems(4) by simp
  show ?case
    using Cons.IH[OF ok1 k1 z1 _ r] Cons.prems(4) by simp
qed

lemma run_sampleRunning: "run sampleDebate [ToggleSpeechTimer 0] = Some sampleRunning"
  by (simp add: sampleRunning_def sampleDebate_def sample_defs toggleSpeechTimer_def)

lemma session_ok_sampleRunning: "session_ok sampleRunning"
  using session_ok_run[OF session_ok_sampleDebate run_sampleRunning] .

lemma sampleRunning_timer:
  "phase sampleRunning = Debate"
  "isSpeechTimerRunning (speakers sampleRunning ! 0)"
  "speechTimeLeft (speakers sampleRunning ! 0) = 440"
  by (simp_all add: sampleRunning_def sampleDebate_def sample_defs toggleSpeechTimer_def
                    SPEECH_TIME_SECONDS_def)

lemma run_sampleExpired:
  "run sampleDebate (ToggleSpeechTimer 0 # replicate 440 (SpeechTimerFires 0)) = Some sampleExpired"
proof -
  have st: "step sampleDebate (ToggleSpeechTimer 0) = Some sampleRunning"
    using run_sampleRunning by (simp split: option.splits)
  have k: "0 < length (speakers sampleRunning)"
    using distinct_ids(2)[OF session_ok_sampleRunning] by simp
  have "run sampleRunning (replicate 440 (SpeechTimerFires 0)) =
          Some (sampleRunning\<lparr> speakers := (speakers sampleRunning)[0 := (speakers sampleRunning ! 0)
                  \<lparr> speechTimeLeft := speechTimeLeft (speakers sampleRunning ! 0) - int 440 \<rparr>] \<rparr>)"
    using session_ok_sampleRunning sampleRunning_timer(1) k sampleRunning_timer(2)
    by (rule run_speech_ticks) (simp add: sampleRunning_timer(3))
  then have "run sampleRunning (replicate 440 (SpeechTimerFires 0)) = Some sampleExpired"
    by (simp add: sampleExpired_def sampleRunning_timer(3))
  then show ?thesis using st by simp
qed

lemma session_ok_sampleExpired: "session_ok sampleExpired"
  using session_ok_run[OF session_ok_sampleDebate run_sampleExpired] .

lemma sampleExpired_timer:
  "speechTimeLeft (speakers sampleExpired ! 0) = 0"
  "isSpeechTimerRunning (speakers sampleExpired ! 0) = True"
  using distinct_ids(2)[OF session_ok_sampleRunning] sampleRunning_timer(2)
  by (simp_all add: sampleExpired_def)

text \<open>
  Claim C4, as stated, fails for the speech timer: reaching 0 does not clear
  \<open>isSpeechTimerRunning\<close>. In the sample debate the first speaker's timer, started and
  ticked 440 times, is at 0 with the flag still true.
\<close>

theorem speech_timer_flag_counterexample:
  "run sampleDebate (ToggleSpeechTimer 0 # replicate 440 (SpeechTimerFires 0)) = Some sampleExpired \<and>
   speechTimeLeft (speakers sampleExpired ! 0) = 0 \<and>
   isSpeechTimerRunning (speakers sampleExpired ! 0) = True"
  using run_sampleExpired sampleExpired_timer by (intro conjI)

text \<open>
  Claim C4, amended. Once a speech timer is at 0 it stops counting: no interval is armed,
  whatever the flag says, and through every later event that is neither a reset of that timer
  nor the write-back of an evaluation result (ticks and toggles of any card, resets of other
  cards, the finish action) its time left stays 0. Reaching 0 does not clear the flag: a tick
  leaves the flag set, and the toggle flips it at 0 as at any other time. A reset sets the
  time to \<open>SPEECH_TIME_SECONDS\<close> and the flag to false. The prep timer has no flag: at 0
  its interval is not armed.
\<close>

theorem timer_stops_counting_at_zero:
  assumes ok: "session_ok session" and k: "k < length (speakers session)"
    and z: "speechTimeLeft (speakers session ! k) = 0"
    and la: "list_all (leaves_timer k) as" and r: "run session as = Some s'"
  shows "speechTimeLeft (speakers s' ! k) = 0 \<and>
         speechTimerEffect (speakers s' ! k) = None \<and>
         step s' (SpeechTimerFires k) = None \<and>
         (\<forall>j t. step session (SpeechTimerFires j) = Some t \<longrightarrow>
                isSpeechTimerRunning (speakers t ! j) = True) \<and>
         (phase session = Debate \<longrightarrow>
            step session (ToggleSpeechTimer k) =
              Some (session\<lparr> speakers := (speakers session)[k := (speakers session ! k)
                      \<lparr> isSpeechTimerRunning := \<not> isSpeechTimerRunning (speakers session ! k) \<rparr>] \<rparr>)) \<and>
         (phase session = Debate \<longrightarrow>
            step session (ResetSpeechTimer k) =
              Some (session\<lparr> speakers := (speakers session)[k := (speakers session ! k)
                      \<lparr> speechTimeLeft := SPEECH_TIME_SECONDS, isSpeechTimerRunning := False \<rparr>] \<rparr>)) \<and>
         (prepTimeLeft session = 0 \<longrightarrow> prepTimerEffect session = None)"
proof -
  have z': "speechTimeLeft (speakers s' ! k) = 0"
    using ok k z la r by (rule stays_zero_run)
  then have off: "speechTimerEffect (speakers s' ! k) = None" "step s' (SpeechTimerFires k) = None"
    by (simp_all add: speechTimerEffect_def onCard_def)
  have tick: "isSpeechTimerRunning (speakers t ! j) = True"
    if st: "step session (SpeechTimerFires j) = Some t" for j t
  proof -
    note a = speech_tick_step[OF st]
    have "step session (SpeechTimerFires j) =
            Some (session\<lparr> speakers := (speakers session)[j := (speakers session ! j)
                    \<lparr> speechTimeLeft := speechTimeLeft (speakers session ! j) - 1 \<rparr>] \<rparr>)"
      using ok a by (intro step_speech_tick) simp_all
    then show ?thesis using st a by auto
  qed
  have tog: "phase session = Debate \<longrightarrow>
            step session (ToggleSpeechTimer k) =
              Some (session\<lparr> speakers := (speakers session)[k := (speakers session ! k)
                      \<lparr> isSpeechTimerRunning := \<not> isSpeechTimerRunning (speakers session ! k) \<rparr>] \<rparr>)"
    using step_toggle[OF ok _ k] by blast
  have res: "phase session = Debate \<longrightarrow>
            step session (ResetSpeechTimer k) =
              Some (session\<lparr> speakers := (speakers session)[k := (speakers session ! k)
                      \<lparr> speechTimeLeft := SPEECH_TIME_SECONDS, isSpeechTimerRunning := False \<rparr>] \<rparr>)"
    using step_reset[OF ok _ k] by blast
  have prep: "prepTimeLeft session = 0 \<longrightarrow> prepTimerEffect session = None"
    by (simp add: prepTimerEffect_def)
  show ?thesis using z' off tick tog res prep by blast
qed

lemma run_from_sampleExpired:
  "run sampleExpired
     [ToggleSpeechTimer 0, ToggleSpeechTimer 1, SpeechTimerFires 1, ToggleSpeechTimer 0]
   = Some (replay sampleExpired
     [ToggleSpeechTimer 0, ToggleSpeechTimer 1, SpeechTimerFires 1, ToggleSpeechTimer 0])"
  by (simp add: sampleExpired_def sampleRunning_def sampleDebate_def sample_defs
                toggleSpeechTimer_def speechTimerEffect_def SPEECH_TIME_SECONDS_def)

theorem timer_stops_counting_at_zero_witness:
  "session_ok sampleExpired \<and>
   speechTimeLeft (speakers sampleExpired ! 0) = 0 \<and>
   list_all (leaves_timer 0)
     [ToggleSpeechTimer 0, ToggleSpeechTimer 1, SpeechTimerFires 1, ToggleSpeechTimer 0] \<and>
   run sampleExpired
     [ToggleSpeechTimer 0, ToggleSpeechTimer 1, SpeechTimerFires 1, ToggleSpeechTimer 0]
   = Some (replay sampleExpired
     [ToggleSpeechTimer 0, ToggleSpeechTimer 1, SpeechTimerFires 1, ToggleSpeechTimer 0]) \<and>
   speechTimeLeft (speakers (replay sampleExpired
     [ToggleSpeechTimer 0, ToggleSpeechTimer 1, SpeechTimerFires 1, ToggleSpeechTimer 0]) ! 0) = 0 \<and>
   step (replay sampleExpired
     [ToggleSpeechTimer 0, ToggleSpeechTimer 1, SpeechTimerFires 1, ToggleSpeechTimer 0])
     (SpeechTimerFires 0) = None"
proof -
  have k: "0 < length (speakers sampleExpired)"
    using distinct_ids(2)[OF session_ok_sampleExpired] by simp
  have la: "list_all (leaves_timer 0)
     [ToggleSpeechTimer 0, ToggleSpeechTimer 1, SpeechTimerFires 1, ToggleSpeechTimer 0]"
    by simp
  note t = timer_stops_counting_at_zero[OF session_ok_sampleExpired k sampleExpired_timer(1) la
             run_from_sampleExpired]
  show ?thesis
    using session_ok_sampleExpired sampleExpired_timer(1) la run_from_sampleExpired
      t[THEN conjunct1] t[THEN conjunct2, THEN conjunct2, THEN conjunct1]
    by (intro conjI)
qed

lemma run_prep_ticks:
  "phase s = Prep \<Longrightarrow> int n \<le> prepTimeLeft s \<Longrightarrow>
     run s (replicate n PrepTimerFires) = Some (s\<lparr> prepTimeLeft := prepTimeLeft s - int n \<rparr>)"
proof (induction n arbitrary: s)
  case 0
  then show ?case by simp
next
  case (Suc n)
  let ?s = "s\<lparr> prepTimeLeft := prepTimeLeft s - 1 \<rparr>"
  have st: "step s PrepTimerFires = Some ?s" using Suc.prems by (simp add: prepTimerEffect_def)
  have "run ?s (replicate n PrepTimerFires) = Some (?s\<lparr> prepTimeLeft := prepTimeLeft ?s - int n \<rparr>)"
    using Suc.prems by (intro Suc.IH) simp_all
  then show ?case using st by (simp add: algebra_simps)
qed

lemma prepTimeLeft_samplePrep: "prepTimeLeft samplePrep = 900"
  by (simp add: samplePrep_def sample_defs PREP_TIME_SECONDS_def)

text \<open>
  Claim C5, as stated, fails: the preparation timer reaching 0 triggers no transition.
  After 900 ticks the sample session is at \<open>prepTimeLeft = 0\<close>, still in phase \<open>prep\<close>,
  and no further timer event exists.
\<close>

theorem prep_timer_expiry_counterexample:
  "run samplePrep (replicate 900 PrepTimerFires) = Some (samplePrep\<lparr> prepTimeLeft := 0 \<rparr>) \<and>
   phase (samplePrep\<lparr> prepTimeLeft := 0 \<rparr>) = Prep \<and>
   prepTimerEffect (samplePrep\<lparr> prepTimeLeft := 0 \<rparr>) = None"
proof -
  have "run samplePrep (replicate 900 PrepTimerFires)
          = Some (samplePrep\<lparr> prepTimeLeft := prepTimeLeft samplePrep - int 900 \<rparr>)"
    by (rule run_prep_ticks) (simp_all add: phase_samplePrep prepTimeLeft_samplePrep)
  then show ?thesis
    by (simp add: prepTimeLeft_samplePrep phase_samplePrep prepTimerEffect_def)
qed

lemma onCard_needs_debate: "onCard s k call = Some s' \<Longrightarrow> phase s = Debate"
  by (auto simp: onCard_def split: if_splits)

text \<open>
  Claim C5, amended. For every session in phase \<open>prep\<close> that the events can produce, the
  skip action is the only event that leaves \<open>prep\<close>; it goes to \<open>debate\<close> with
  \<open>prepTimeLeft\<close> exactly 0 and \<open>isAdjudicating\<close> false. A tick of the preparation timer
  decrements \<open>prepTimeLeft\<close> by 1, never below 0, and keeps the phase \<open>prep\<close> and
  \<open>isAdjudicating\<close> false; at 0 the timer no longer fires.
\<close>

theorem only_skip_leaves_prep:
  assumes ph: "phase session = Prep" and ok: "session_ok session"
  shows "(\<exists>s'. step session SkipPrep = Some s' \<and> phase s' = Debate \<and> prepTimeLeft s' = 0 \<and>
               isAdjudicating s' = False) \<and>
         (\<forall>a s'. step session a = Some s' \<and> phase s' \<noteq> Prep \<longrightarrow> a = SkipPrep) \<and>
         (\<forall>s'. step session PrepTimerFires = Some s' \<longrightarrow>
               phase s' = Prep \<and> prepTimeLeft s' = prepTimeLeft session - 1 \<and>
               0 \<le> prepTimeLeft s' \<and> isAdjudicating s' = False) \<and>
         (prepTimeLeft session = 0 \<longrightarrow> step session PrepTimerFires = None)"
proof -
  have adj: "\<not> isAdjudicating session" using ph ok by (simp add: session_ok_def)
  have skip: "\<exists>s'. step session SkipPrep = Some s' \<and> phase s' = Debate \<and> prepTimeLeft s' = 0 \<and>
               isAdjudicating s' = False"
    using ph adj by (simp add: handleSkipPrep_def after_def)
  have only: "a = SkipPrep" if "step session a = Some s'" and "phase s' \<noteq> Prep" for a s'
    using that ph
    by (cases a) (auto simp: prepTimerEffect_def split: if_splits dest: onCard_needs_debate)
  have tick: "phase s' = Prep \<and> prepTimeLeft s' = prepTimeLeft session - 1 \<and>
               0 \<le> prepTimeLeft s' \<and> isAdjudicating s' = False"
    if "step session PrepTimerFires = Some s'" for s'
    using that ph adj by (auto simp: prepTimerEffect_def split: if_splits)
  have stop: "prepTimeLeft session = 0 \<longrightarrow> step session PrepTimerFires = None"
    by (simp add: prepTimerEffect_def)
  show ?thesis using skip only tick stop by blast
qed

theorem only_skip_leaves_prep_witness:
  "phase samplePrep = Prep \<and> session_ok samplePrep \<and>
   (\<exists>s'. step samplePrep SkipPrep = Some s' \<and> phase s' = Debate \<and> prepTimeLeft s' = 0 \<and>
         isAdjudicating s' = False)"
  using only_skip_leaves_prep[OF phase_samplePrep session_ok_samplePrep]
    phase_samplePrep session_ok_samplePrep
  by blast


text \<open>
  Claim C9. In every session the events can produce from a blank one, \<open>prepTimeLeft\<close> lies
  between 0 and its initial value \<open>PREP_TIME_SECONDS\<close> and every speaker's
  \<open>speechTimeLeft\<close> between 0 and its initial value \<open>SPEECH_TIME_SECONDS\<close>. The prep
  timer ticks exactly while the phase is \<open>prep\<close> and time is left, a speech timer exactly
  while the card is shown, its flag is set and time is left; each tick decrements the time
  left by exactly 1 and changes nothing else (a speech tick leaves the other seven speakers
  as they are); at 0 no tick happens.
\<close>

theorem time_left_in_range:
  assumes "run (blankSession i t now) as = Some session"
  shows "prepTimeLeft (blankSession i t now) = PREP_TIME_SECONDS \<and>
         (\<forall>sp \<in> set (speakers (blankSession i t now)). speechTimeLeft sp = SPEECH_TIME_SECONDS) \<and>
         0 \<le> prepTimeLeft session \<and> prepTimeLeft session \<le> PREP_TIME_SECONDS \<and>
         (\<forall>sp \<in> set (speakers session).
             0 \<le> speechTimeLeft sp \<and> speechTimeLeft sp \<le> SPEECH_TIME_SECONDS) \<and>
         (phase session = Prep \<and> 0 < prepTimeLeft session \<longrightarrow>
            step session PrepTimerFires =
              Some (session\<lparr> prepTimeLeft := prepTimeLeft session - 1 \<rparr>)) \<and>
         (\<forall>s'. step session PrepTimerFires = Some s' \<longrightarrow>
               phase session = Prep \<and> 0 < prepTimeLeft session \<and>
               prepTimeLeft s' = prepTimeLeft session - 1) \<and>
         (prepTimeLeft session = 0 \<longrightarrow> step session PrepTimerFires = None) \<and>
         (\<forall>k. phase session = Debate \<and> k < length (speakers session) \<and>
              isSpeechTimerRunning (speakers session ! k) \<and>
              0 < speechTimeLeft (speakers session ! k) \<longrightarrow>
              step session (SpeechTimerFires k) =
                Some (session\<lparr> speakers := (speakers session)[k := (speakers session ! k)
                        \<lparr> speechTimeLeft := speechTimeLeft (speakers session ! k) - 1 \<rparr>] \<rparr>)) \<and>
         (\<forall>k s'. step session (SpeechTimerFires k) = Some s' \<longrightarrow>
               k < length (speakers session) \<and>
               isSpeechTimerRunning (speakers session ! k) \<and>
               0 < speechTimeLeft (speakers session ! k) \<and>
               speechTimeLeft (speakers s' ! k) = speechTimeLeft (speakers session ! k) - 1 \<and>
               (\<forall>j. j < length (speakers session) \<and> j \<noteq> k \<longrightarrow>
                     speakers s' ! j = speakers session ! j)) \<and>
         (\<forall>k. k < length (speakers session) \<and> speechTimeLeft (speakers session ! k) = 0 \<longrightarrow>
               step session (SpeechTimerFires k) = None)"
proof -
  have ok: "session_ok session"
    using session_ok_run[OF session_ok_blankSession assms] .
  have init: "prepTimeLeft (blankSession i t now) = PREP_TIME_SECONDS"
    "\<forall>sp \<in> set (speakers (blankSession i t now)). speechTimeLeft sp = SPEECH_TIME_SECONDS"
    by (simp_all add: blankSession_def INITIAL_SPEAKERS_def initialSpeaker_def)
  have prep: "0 \<le> prepTimeLeft session" "prepTimeLeft session \<le> PREP_TIME_SECONDS"
    using ok by (simp_all add: session_ok_def)
  have speech: "\<forall>sp \<in> set (speakers session).
                  0 \<le> speechTimeLeft sp \<and> speechTimeLeft sp \<le> SPEECH_TIME_SECONDS"
    using ok by (simp add: session_ok_def list_all_iff speaker_ok_def)
  have pgo: "phase session = Prep \<and> 0 < prepTimeLeft session \<longrightarrow>
            step session PrepTimerFires =
              Some (session\<lparr> prepTimeLeft := prepTimeLeft session - 1 \<rparr>)"
    by (simp add: prepTimerEffect_def)
  have ptick: "phase session = Prep \<and> 0 < prepTimeLeft session \<and>
               prepTimeLeft s' = prepTimeLeft session - 1"
    if "step session PrepTimerFires = Some s'" for s'
    using that by (auto simp: prepTimerEffect_def split: if_splits)
  have pstop: "prepTimeLeft session = 0 \<longrightarrow> step session PrepTimerFires = None"
    by (simp add: prepTimerEffect_def)
  have sgo: "step session (SpeechTimerFires k) =
                Some (session\<lparr> speakers := (speakers session)[k := (speakers session ! k)
                        \<lparr> speechTimeLeft := speechTimeLeft (speakers session ! k) - 1 \<rparr>] \<rparr>)"
    if "phase session = Debate \<and> k < length (speakers session) \<and>
        isSpeechTimerRunning (speakers session ! k) \<and>
        0 < speechTimeLeft (speakers session ! k)" for k
    using that ok by (intro step_speech_tick) simp_all
  have stick: "k < length (speakers session) \<and>
               isSpeechTimerRunning (speakers session ! k) \<and>
               0 < speechTimeLeft (speakers session ! k) \<and>
               speechTimeLeft (speakers s' ! k) = speechTimeLeft (speakers session ! k) - 1 \<and>
               (\<forall>j. j < length (speakers session) \<and> j \<noteq> k \<longrightarrow>
                     speakers s' ! j = speakers session ! j)"
    if st: "step session (SpeechTimerFires k) = Some s'" for k s'
  proof -
    note a = speech_tick_step[OF st]
    have "s' = session\<lparr> speakers := (speakers session)[k := (speakers session ! k)
                        \<lparr> speechTimeLeft := speechTimeLeft (speakers session ! k) - 1 \<rparr>] \<rparr>"
      using sgo[of k] a st by simp
    then show ?thesis using a by simp
  qed
  have sstop: "step session (SpeechTimerFires k) = None"
    if "k < length (speakers session) \<and> speechTimeLeft (speakers session ! k) = 0" for k
    using that by (simp add: speechTimerEffect_def)
  show ?thesis
    using init prep speech pgo ptick pstop sgo stick sstop by blast
qed

lemma run_sampleTicked:
  "run sampleBlank [sampleStart True, ToggleSpeechTimer 0, SpeechTimerFires 0] = Some sampleTicked"
  by (simp add: sampleTicked_def sampleDebate_def sample_defs speechTimerEffect_def
                toggleSpeechTimer_def SPEECH_TIME_SECONDS_def)

lemma prepTimeLeft_after_one_tick:
  "prepTimeLeft (samplePrep\<lparr> prepTimeLeft := prepTimeLeft samplePrep - 1 \<rparr>) = 899"
  by (simp add: prepTimeLeft_samplePrep)

theorem time_left_in_range_witness:
  "run (blankSession ''default-1'' ''New Debate 1'' 0) [sampleStart False] = Some samplePrep \<and>
   phase samplePrep = Prep \<and> prepTimeLeft samplePrep = 900 \<and>
   step samplePrep PrepTimerFires
     = Some (samplePrep\<lparr> prepTimeLeft := prepTimeLeft samplePrep - 1 \<rparr>) \<and>
   prepTimeLeft (samplePrep\<lparr> prepTimeLeft := prepTimeLeft samplePrep - 1 \<rparr>) = 899 \<and>
   run (blankSession ''default-1'' ''New Debate 1'' 0) [sampleStart True, ToggleSpeechTimer 0]
     = Some sampleRunning \<and>
   step sampleRunning (SpeechTimerFires 0) = Some sampleTicked \<and>
   run (blankSession ''default-1'' ''New Debate 1'' 0)
       [sampleStart True, ToggleSpeechTimer 0, SpeechTimerFires 0] = Some sampleTicked \<and>
   map speechTimeLeft (speakers sampleTicked) = [439, 440, 440, 440, 440, 440, 440, 440] \<and>
   prepTimeLeft sampleTicked = 0 \<and>
   0 \<le> prepTimeLeft sampleTicked \<and> prepTimeLeft sampleTicked \<le> PREP_TIME_SECONDS \<and>
   list_all (\<lambda>sp. 0 \<le> speechTimeLeft sp \<and> speechTimeLeft sp \<le> SPEECH_TIME_SECONDS)
     (speakers sampleTicked)"
proof -
  have rp: "run (blankSession ''default-1'' ''New Debate 1'' 0) [sampleStart False] = Some samplePrep"
    using run_samplePrep by (simp add: sampleBlank_def)
  have pp: "phase samplePrep = Prep \<and> 0 < prepTimeLeft samplePrep"
    by (simp add: phase_samplePrep prepTimeLeft_samplePrep)
  note tp = time_left_in_range[OF rp]
  note ptick = tp[THEN conjunct2, THEN conjunct2, THEN conjunct2, THEN conjunct2,
                  THEN conjunct2, THEN conjunct1, THEN mp, OF pp]
  have s1: "step sampleBlank (sampleStart True) = Some sampleDebate"
    using run_sampleDebate by (simp split: option.splits)
  have s2: "step sampleDebate (ToggleSpeechTimer 0) = Some sampleRunning"
    using run_sampleRunning by (simp split: option.splits)
  have "run sampleBlank [sampleStart True, ToggleSpeechTimer 0] = Some sampleRunning"
    using s1 s2 by simp
  then have rr: "run (blankSession ''default-1'' ''New Debate 1'' 0)
              [sampleStart True, ToggleSpeechTimer 0] = Some sampleRunning"
    by (simp add: sampleBlank_def)
  have r: "run (blankSession ''default-1'' ''New Debate 1'' 0)
             [sampleStart True, ToggleSpeechTimer 0, SpeechTimerFires 0] = Some sampleTicked"
    using run_sampleTicked by (simp add: sampleBlank_def)
  have stick: "step sampleRunning (SpeechTimerFires 0) = Some sampleTicked"
    by (simp add: sampleTicked_def sampleRunning_def sampleDebate_def sample_defs
                  speechTimerEffect_def toggleSpeechTimer_def SPEECH_TIME_SECONDS_def)
  have v: "map speechTimeLeft (speakers sampleTicked) = [439, 440, 440, 440, 440, 440, 440, 440]"
    "prepTimeLeft sampleTicked = 0"
    by (simp_all add: sampleTicked_def sampleDebate_def sample_defs speechTimerEffect_def
                toggleSpeechTimer_def SPEECH_TIME_SECONDS_def)
  note t = time_left_in_range[OF r]
  have la: "list_all (\<lambda>sp. 0 \<le> speechTimeLeft sp \<and> speechTimeLeft sp \<le> SPEECH_TIME_SECONDS)
          (speakers sampleTicked)"
    unfolding list_all_iff using t by blast
  have rng: "0 \<le> prepTimeLeft sampleTicked" "prepTimeLeft sampleTicked \<le> PREP_TIME_SECONDS"
    using t by blast+
  show ?thesis
    using rp phase_samplePrep prepTimeLeft_samplePrep ptick prepTimeLeft_after_one_tick
      rr stick r v rng la
    by (intro conjI)
qed

section \<open>The update primitive\<close>

lemma handleUpdateSpeaker_no_match:
  assumes "i \<notin> id_sp ` set (speakers session)"
  shows "handleUpdateSpeaker session i updates = session"
proof -
  have "map (\<lambda>s. if id_sp s = i then spread s updates else s) (speakers session)
          = speakers session"
    using assms by (intro map_idI) auto
  then show ?thesis by (simp add: handleUpdateSpeaker_def)
qed

lemma changed_has_id:
  assumes "k < length (speakers session)"
    and "speakers (handleUpdateSpeaker session i updates) ! k \<noteq> speakers session ! k"
  shows "id_sp (speakers session ! k) = i"
  using assms by (auto simp: speakers_handleUpdateSpeaker split: if_splits)

text \<open>
  Claim C7. For every session, speaker id and update, \<open>handleUpdateSpeaker\<close> keeps the
  number of speakers and leaves every speaker whose id differs from the given one exactly
  as it was; an id that matches no speaker leaves the whole session unchanged. With ids
  pairwise distinct at most one speaker changes, so of 8 speakers at least 7 are unchanged.
\<close>

theorem update_changes_only_matching_speaker:
  "length (speakers (handleUpdateSpeaker session i updates)) = length (speakers session) \<and>
   (\<forall>k. k < length (speakers session) \<and> id_sp (speakers session ! k) \<noteq> i \<longrightarrow>
        speakers (handleUpdateSpeaker session i updates) ! k = speakers session ! k) \<and>
   (i \<notin> id_sp ` set (speakers session) \<longrightarrow> handleUpdateSpeaker session i updates = session) \<and>
   (distinct (map id_sp (speakers session)) \<longrightarrow>
      card {k. k < length (speakers session) \<and>
               speakers (handleUpdateSpeaker session i updates) ! k \<noteq> speakers session ! k} \<le> 1) \<and>
   (length (speakers session) = 8 \<and> distinct (map id_sp (speakers session)) \<longrightarrow>
      7 \<le> card {k. k < 8 \<and>
               speakers (handleUpdateSpeaker session i updates) ! k = speakers session ! k})"
proof -
  let ?new = "speakers (handleUpdateSpeaker session i updates)"
  let ?old = "speakers session"
  let ?C = "{k. k < length ?old \<and> ?new ! k \<noteq> ?old ! k}"
  have len: "length ?new = length ?old" by (simp add: speakers_handleUpdateSpeaker)
  have others: "\<forall>k. k < length ?old \<and> id_sp (?old ! k) \<noteq> i \<longrightarrow> ?new ! k = ?old ! k"
    by (simp add: speakers_handleUpdateSpeaker)
  have none: "i \<notin> id_sp ` set ?old \<longrightarrow> handleUpdateSpeaker session i updates = session"
    using handleUpdateSpeaker_no_match by blast
  have one: "card ?C \<le> 1" if d: "distinct (map id_sp ?old)"
  proof (cases "?C = {}")
    case True
    show ?thesis by (subst True) simp
  next
    case False
    then obtain j where j: "j \<in> ?C" by blast
    have "k = j" if "k \<in> ?C" for k
    proof -
      have "id_sp (?old ! k) = i" "id_sp (?old ! j) = i"
        using that j by (auto intro: changed_has_id)
      then have "map id_sp ?old ! k = map id_sp ?old ! j" using that j by simp
      then show ?thesis using d that j by (simp add: nth_eq_iff_index_eq del: nth_map)
    qed
    then have "?C \<subseteq> {j}" by blast
    then have "card ?C \<le> card {j}" by (intro card_mono) simp_all
    then show ?thesis by simp
  qed
  have seven: "7 \<le> card {k. k < 8 \<and> ?new ! k = ?old ! k}"
    if l: "length ?old = 8" and d: "distinct (map id_sp ?old)"
  proof -
    let ?S = "{k. k < 8 \<and> ?new ! k = ?old ! k}"
    have un: "?S \<union> ?C = {..<8}" and disj: "?S \<inter> ?C = {}" using l by auto
    have fin: "finite ?S" "finite ?C" by simp_all
    have "card (?S \<union> ?C) = card ?S + card ?C"
      using fin disj by (rule card_Un_disjoint)
    moreover have "card (?S \<union> ?C) = 8" unfolding un by simp
    ultimately show ?thesis using one[OF d] by linarith
  qed
  have one': "distinct (map id_sp ?old) \<longrightarrow> card ?C \<le> 1"
    using one by (rule impI)
  have seven': "length ?old = 8 \<and> distinct (map id_sp ?old) \<longrightarrow>
                  7 \<le> card {k. k < 8 \<and> ?new ! k = ?old ! k}"
    using seven by (intro impI) (elim conjE)
  show ?thesis using len others none one' seven' by (intro conjI)
qed

theorem update_changes_only_matching_speaker_witness:
  "distinct (map id_sp (speakers sampleDebate)) \<and> length (speakers sampleDebate) = 8 \<and>
   7 \<le> card {k. k < 8 \<and>
            speakers (handleUpdateSpeaker sampleDebate ''3''
                        (noUpdates\<lparr> speechTimeLeft_u := Some 439 \<rparr>)) ! k
              = speakers sampleDebate ! k} \<and>
   ''9'' \<notin> id_sp ` set (speakers sampleDebate) \<and>
   handleUpdateSpeaker sampleDebate ''9'' (noUpdates\<lparr> speechTimeLeft_u := Some 439 \<rparr>)
     = sampleDebate"
proof -
  have n: "''9'' \<notin> id_sp ` set (speakers sampleDebate)"
    by (simp add: sampleDebate_def sample_defs)
  note d = distinct_ids[OF session_ok_sampleDebate]
  note t3 = update_changes_only_matching_speaker[of sampleDebate "''3''"
              "noUpdates\<lparr> speechTimeLeft_u := Some 439 \<rparr>"]
  note t9 = update_changes_only_matching_speaker[of sampleDebate "''9''"
              "noUpdates\<lparr> speechTimeLeft_u := Some 439 \<rparr>"]
  note seven = t3[THEN conjunct2, THEN conjunct2, THEN conjunct2, THEN conjunct2, THEN mp,
                  OF conjI[OF d(2) d(1)]]
  note same = t9[THEN conjunct2, THEN conjunct2, THEN conjunct1, THEN mp, OF n]
  show ?thesis using d(1) d(2) seven n same by (intro conjI)
qed

text \<open>
  Claim C8, as stated, fails for the primitive: its parameter is a \<open>Partial<Speaker>\<close>,
  and an update carrying \<open>id\<close>, \<open>role\<close> and \<open>team\<close> overwrites all three in the
  targeted speaker.
\<close>

theorem update_can_change_identity_counterexample:
  "id_sp (speakers sampleDebate ! 0) = ''1'' \<and>
   role (speakers sampleDebate ! 0) = Role_PM \<and>
   team (speakers sampleDebate ! 0) = Team_OG \<and>
   id_sp (speakers (handleUpdateSpeaker sampleDebate ''1''
            (noUpdates\<lparr> id_u := Some ''9'', role_u := Some Role_OW, team_u := Some Team_CO \<rparr>)) ! 0)
     = ''9'' \<and>
   role (speakers (handleUpdateSpeaker sampleDebate ''1''
            (noUpdates\<lparr> id_u := Some ''9'', role_u := Some Role_OW, team_u := Some Team_CO \<rparr>)) ! 0)
     = Role_OW \<and>
   team (speakers (handleUpdateSpeaker sampleDebate ''1''
            (noUpdates\<lparr> id_u := Some ''9'', role_u := Some Role_OW, team_u := Some Team_CO \<rparr>)) ! 0)
     = Team_CO"
  by (simp add: sampleDebate_def sample_defs)

text \<open>
  Claim C8, amended. Every update the speaker card issues through the primitive (timer
  tick, toggle, reset, evaluation result) targets the card's own speaker and carries none of
  \<open>id\<close>, \<open>role\<close>, \<open>team\<close>; an update carrying none of the three leaves the id, role and
  team of every speaker as they were; so in every session the events produce from a blank
  one the ids, roles and teams are those of \<open>INITIAL_SPEAKERS\<close>.
\<close>

theorem issued_updates_keep_identity:
  "(cardCall sp ev = Some (i, updates) \<longrightarrow>
      i = id_sp sp \<and> id_u updates = None \<and> role_u updates = None \<and> team_u updates = None) \<and>
   (id_u updates = None \<and> role_u updates = None \<and> team_u updates = None \<longrightarrow>
      map id_sp (speakers (handleUpdateSpeaker session i updates)) = map id_sp (speakers session) \<and>
      map role (speakers (handleUpdateSpeaker session i updates)) = map role (speakers session) \<and>
      map team (speakers (handleUpdateSpeaker session i updates)) = map team (speakers session)) \<and>
   (run (blankSession newId newTitle now) as = Some s' \<longrightarrow>
      map id_sp (speakers s') = map id_sp INITIAL_SPEAKERS \<and>
      map role (speakers s') = map role INITIAL_SPEAKERS \<and>
      map team (speakers s') = map team INITIAL_SPEAKERS)"
proof -
  have a: "cardCall sp ev = Some (i, updates) \<longrightarrow>
      i = id_sp sp \<and> id_u updates = None \<and> role_u updates = None \<and> team_u updates = None"
    using cardCall_identity by blast
  have b: "id_u updates = None \<and> role_u updates = None \<and> team_u updates = None \<longrightarrow>
      map id_sp (speakers (handleUpdateSpeaker session i updates)) = map id_sp (speakers session) \<and>
      map role (speakers (handleUpdateSpeaker session i updates)) = map role (speakers session) \<and>
      map team (speakers (handleUpdateSpeaker session i updates)) = map team (speakers session)"
    using identity_handleUpdateSpeaker by blast
  have c: "map id_sp (speakers s') = map id_sp INITIAL_SPEAKERS \<and>
      map role (speakers s') = map role INITIAL_SPEAKERS \<and>
      map team (speakers s') = map team INITIAL_SPEAKERS"
    if "run (blankSession newId newTitle now) as = Some s'"
    using session_ok_run[OF session_ok_blankSession that] by (simp add: session_ok_def)
  show ?thesis using a b c by blast
qed

theorem issued_updates_keep_identity_witness:
  "cardCall (speakers sampleDebate ! 0) Reset
     = Some (''1'', noUpdates\<lparr> isSpeechTimerRunning_u := Some False,
                               speechTimeLeft_u := Some SPEECH_TIME_SECONDS \<rparr>) \<and>
   map team (speakers (handleUpdateSpeaker sampleDebate ''1''
        (noUpdates\<lparr> isSpeechTimerRunning_u := Some False,
                    speechTimeLeft_u := Some SPEECH_TIME_SECONDS \<rparr>)))
     = map team (speakers sampleDebate) \<and>
   run (blankSession ''default-1'' ''New Debate 1'' 0) [sampleStart True] = Some sampleDebate \<and>
   map team (speakers sampleDebate) = map team INITIAL_SPEAKERS"
proof -
  have c: "cardCall (speakers sampleDebate ! 0) Reset
     = Some (''1'', noUpdates\<lparr> isSpeechTimerRunning_u := Some False,
                               speechTimeLeft_u := Some SPEECH_TIME_SECONDS \<rparr>)"
    by (simp add: sampleDebate_def sample_defs resetSpeechTimer_def)
  have r: "run (blankSession ''default-1'' ''New Debate 1'' 0) [sampleStart True] = Some sampleDebate"
    using run_sampleDebate by (simp add: sampleBlank_def)
  note t = issued_updates_keep_identity[of "speakers sampleDebate ! 0" Reset "''1''"
            "noUpdates\<lparr> isSpeechTimerRunning_u := Some False,
                        speechTimeLeft_u := Some SPEECH_TIME_SECONDS \<rparr>"
            sampleDebate "''default-1''" "''New Debate 1''" 0 "[sampleStart True]" sampleDebate]
  note none = t[THEN conjunct1, THEN mp, OF c]
  have keeps: "id_u (noUpdates\<lparr> isSpeechTimerRunning_u := Some False,
                        speechTimeLeft_u := Some SPEECH_TIME_SECONDS \<rparr>) = None \<and>
               role_u (noUpdates\<lparr> isSpeechTimerRunning_u := Some False,
                        speechTimeLeft_u := Some SPEECH_TIME_SECONDS \<rparr>) = None \<and>
               team_u (noUpdates\<lparr> isSpeechTimerRunning_u := Some False,
                        speechTimeLeft_u := Some SPEECH_TIME_SECONDS \<rparr>) = None"
    using none by (elim conjE) (intro conjI)
  note teams = t[THEN conjunct2, THEN conjunct1, THEN mp, OF keeps, THEN conjunct2, THEN conjunct2]
  note roster = t[THEN conjunct2, THEN conjunct2, THEN mp, OF r, THEN conjunct2, THEN conjunct2]
  show ?thesis using c teams r roster by (intro conjI)
qed

section \<open>Deleting a session\<close>

lemma at_most_one_with_id:
  "distinct (map f xs) \<Longrightarrow> length (filter (\<lambda>x. f x = a) xs) \<le> 1"
proof (induction xs)
  case Nil
  then show ?case by simp
next
  case (Cons x xs)
  show ?case
  proof (cases "f x = a")
    case True
    then have "a \<notin> f ` set xs" using Cons.prems by auto
    then have "filter (\<lambda>x. f x = a) xs = []" by (auto simp: filter_empty_conv)
    then show ?thesis using True by simp
  next
    case False
    then show ?thesis using Cons by simp
  qed
qed

lemma exactly_one_with_id:
  assumes "distinct (map f xs)" and "a \<in> f ` set xs"
  shows "length (filter (\<lambda>x. f x = a) xs) = 1"
proof -
  have "filter (\<lambda>x. f x = a) xs \<noteq> []" using assms(2) by (auto simp: filter_empty_conv)
  then have "0 < length (filter (\<lambda>x. f x = a) xs)" by simp
  then show ?thesis using at_most_one_with_id[OF assms(1), of a] by linarith
qed

lemma length_filter_others:
  "length (filter (\<lambda>x. f x \<noteq> a) xs) = length xs - length (filter (\<lambda>x. f x = a) xs)"
  using sum_length_filter_compl[of "\<lambda>x. f x = a" xs] by simp

lemma show_nat_5: "show_nat 5 = ''5''"
  by code_simp

lemma show_nat_2: "show_nat (Suc (Suc 0)) = ''2''"
  by code_simp

lemma show_nat_3: "show_nat (Suc (Suc (Suc 0))) = ''3''"
  by code_simp

lemma sampleApp_value:
  "sampleApp = \<lparr> sessions = [blankSession ''default-1'' ''New Debate 1'' 0,
                                blankSession ''session-5'' ''New Debate 2'' 5],
                    activeSessionId = ''session-5'' \<rparr>"
  by (simp add: sampleApp_def createNewSession_def initialApp_def Let_def show_nat_5 show_nat_2)

text \<open>
  Claim C10. The code breaks it when two sessions share an id, which
  \<open>createNewSession\<close> produces when it runs twice within one millisecond (the id is
  \<open>session-\<close> followed by \<open>Date.now()\<close>). With the twins the only sessions left, deleting
  their id passes the guard (the length is 2, not 1), the filter removes both, the empty list
  is stored, and reading \<open>newSessions[0].id\<close> throws: the session collection is empty,
  against the claim and against the code's own comment on the guard, "Prevent deleting last
  session".
\<close>

theorem delete_with_shared_id_empties_list:
  "createNewSession sampleApp 5 =
     \<lparr> sessions = [blankSession ''default-1'' ''New Debate 1'' 0,
                   blankSession ''session-5'' ''New Debate 2'' 5,
                   blankSession ''session-5'' ''New Debate 3'' 5],
       activeSessionId = ''session-5'' \<rparr> \<and>
   deleteSession (createNewSession sampleApp 5) ''default-1'' = (sampleTwins, None) \<and>
   length (sessions sampleTwins) = 2 \<and>
   deleteSession sampleTwins ''session-5''
     = (\<lparr> sessions = [], activeSessionId = ''session-5'' \<rparr>, Some TypeError)"
proof -
  have c: "createNewSession sampleApp 5 =
     \<lparr> sessions = [blankSession ''default-1'' ''New Debate 1'' 0,
                   blankSession ''session-5'' ''New Debate 2'' 5,
                   blankSession ''session-5'' ''New Debate 3'' 5],
       activeSessionId = ''session-5'' \<rparr>"
    by (simp add: sampleApp_value createNewSession_def Let_def show_nat_5 show_nat_3)
  have d1: "deleteSession (createNewSession sampleApp 5) ''default-1'' = (sampleTwins, None)"
    unfolding c by (simp add: deleteSession_def sampleTwins_def blankSession_def Let_def)
  have l: "length (sessions sampleTwins) = 2"
    by (simp add: sampleTwins_def)
  have d2: "deleteSession sampleTwins ''session-5''
     = (\<lparr> sessions = [], activeSessionId = ''session-5'' \<rparr>, Some TypeError)"
    by (simp add: deleteSession_def sampleTwins_def blankSession_def Let_def)
  show ?thesis using c d1 l d2 by (intro conjI)
qed

text \<open>
  While the session ids are pairwise distinct the code does what the claim says: deleting
  throws nothing and never empties a non-empty list (and keeps the ids distinct); with
  exactly one session it changes nothing; otherwise the new list is the old one without the
  session of the given id, one session fewer when the id is present and the same list when
  it is not, and if the deleted id was the active one the first remaining session becomes
  active, else the active id stays.
\<close>

lemma deleteSession_distinct_ids:
  assumes ne: "sessions st \<noteq> []" and d: "distinct (map id_s (sessions st))"
  shows "\<exists>st'. deleteSession st i = (st', None) \<and>
           sessions st' \<noteq> [] \<and>
           distinct (map id_s (sessions st')) \<and>
           (length (sessions st) = 1 \<longrightarrow> st' = st) \<and>
           (length (sessions st) \<noteq> 1 \<longrightarrow>
              sessions st' = filter (\<lambda>s. id_s s \<noteq> i) (sessions st) \<and>
              (i \<in> id_s ` set (sessions st) \<longrightarrow>
                 length (sessions st') = length (sessions st) - 1) \<and>
              (i \<notin> id_s ` set (sessions st) \<longrightarrow> sessions st' = sessions st) \<and>
              (activeSessionId st = i \<longrightarrow> activeSessionId st' = id_s (hd (sessions st'))) \<and>
              (activeSessionId st \<noteq> i \<longrightarrow> activeSessionId st' = activeSessionId st))"
proof (cases "length (sessions st) = 1")
  case True
  then show ?thesis using ne d by (simp add: deleteSession_def)
next
  case False
  let ?new = "filter (\<lambda>s. id_s s \<noteq> i) (sessions st)"
  have two: "2 \<le> length (sessions st)"
    using False ne by (cases "sessions st") (auto simp: Suc_le_eq)
  have "length ?new = length (sessions st) - length (filter (\<lambda>s. id_s s = i) (sessions st))"
    by (rule length_filter_others)
  then have "1 \<le> length ?new"
    using two at_most_one_with_id[OF d, of i] by linarith
  then obtain s rest where new: "?new = s # rest" by (cases ?new) auto
  have dn: "distinct (map id_s ?new)" using d by (rule distinct_map_filter)
  have gone: "length ?new = length (sessions st) - 1" if "i \<in> id_s ` set (sessions st)"
    using exactly_one_with_id[OF d that] length_filter_others[of id_s i "sessions st"] by simp
  have kept: "?new = sessions st" if "i \<notin> id_s ` set (sessions st)"
    using that by (auto simp: filter_id_conv)
  show ?thesis
  proof (cases "activeSessionId st = i")
    case True
    then have "deleteSession st i = (\<lparr> sessions = ?new, activeSessionId = id_s s \<rparr>, None)"
      using False new by (simp add: deleteSession_def Let_def)
    then show ?thesis using False True new dn gone kept by auto
  next
    case act: False
    then have "deleteSession st i
                 = (\<lparr> sessions = ?new, activeSessionId = activeSessionId st \<rparr>, None)"
      using False by (simp add: deleteSession_def Let_def)
    then show ?thesis using False act new dn gone kept by auto
  qed
qed

lemma deleteSession_sampleApp:
  "deleteSession sampleApp ''session-5''
     = (\<lparr> sessions = [blankSession ''default-1'' ''New Debate 1'' 0],
          activeSessionId = ''default-1'' \<rparr>, None)"
  "deleteSession (initialApp 0) ''default-1'' = (initialApp 0, None)"
  by (simp_all add: sampleApp_value blankSession_def deleteSession_def initialApp_def Let_def)

text \<open>
  Session ids stay pairwise distinct as long as every new id is fresh, which it is when
  \<open>Date.now()\<close> differs from one creation to the next; an update of a session keeps the
  ids and the length of the list.
\<close>

lemma distinct_initialApp: "distinct (map id_s (sessions (initialApp now)))"
  by (simp add: initialApp_def)

lemma distinct_createNewSession:
  assumes "distinct (map id_s (sessions st))"
    and "''session-'' @ show_nat now \<notin> id_s ` set (sessions st)"
  shows "distinct (map id_s (sessions (createNewSession st now)))"
  using assms by (simp add: createNewSession_def Let_def blankSession_def)

lemma ids_updateSession:
  "map id_s (sessions (updateSession st updated)) = map id_s (sessions st)"
  by (simp add: updateSession_def)

section \<open>An evaluation result that arrives late\<close>

text \<open>
  What the closure of an earlier render stores when its evaluation returns is the step of
  \<open>RecordingStops\<close> from that render's session \<open>c\<close>. It satisfies what every produced
  session satisfies, and its speech timers are those of \<open>c\<close>, whatever they have become
  in the meantime.
\<close>

lemma late_result_session_ok:
  assumes "session_ok c" and "step c (RecordingStops k blob apiKey reply) = Some s'"
  shows "session_ok s'"
  using assms by (rule session_ok_step)

lemma late_result_timers:
  assumes "step c (RecordingStops k blob apiKey reply) = Some s'"
  shows "map speechTimeLeft (speakers s') = map speechTimeLeft (speakers c)"
    and "map isSpeechTimerRunning (speakers s') = map isSpeechTimerRunning (speakers c)"
  using assms
  by (auto simp: onCard_def processAudio_def speakers_handleUpdateSpeaker spread_fields
                 noUpdates_def or_else_def
           split: if_splits sum.splits)

end
